theory Spec2Isabelle
  imports Complex_Main "HOL-Library.Sublist" "HOL-Library.AList"
begin

section \<open>JavaScript values\<close>

text \<open>
  The values the search handler of \<^verbatim>\<open>server.js\<close> touches: what \<^verbatim>\<open>JSON.parse\<close> yields
  (null, booleans, numbers, strings, arrays, objects), \<^verbatim>\<open>undefined\<close>, and the built-in
  objects an ordinary object inherits from (\<open>JNative\<close>, named by their path).
  A number is a finite double, written as the rational it denotes; a string is a list
  of code units, a \<^typ>\<open>char\<close> standing for the code unit of the same number
  (0 to 255). An object is the list of its own properties, read with \<^const>\<open>map_of\<close>.
\<close>

datatype jsval =
    JUndefined
  | JNull
  | JBool bool
  | JNum rat
  | JStr string
  | JArr "jsval list"
  | JObj "(string \<times> jsval) list"
  | JNative string

datatype error = Error string

text \<open>
  Property reads on receivers that are not parsed JSON objects (primitives, built-in
  functions such as \<^verbatim>\<open>Object\<close>) depend on the engine's library; they are a parameter
  of the model. Such a read may throw: ECMAScript makes \<^verbatim>\<open>caller\<close> and
  \<^verbatim>\<open>arguments\<close> of a built-in function throwing accessors.
\<close>

type_synonym runtime = "jsval \<Rightarrow> string \<Rightarrow> error + jsval"

fun truthy :: "jsval \<Rightarrow> bool" where
  "truthy JUndefined = False"
| "truthy JNull = False"
| "truthy (JBool b) = b"
| "truthy (JNum r) = (r \<noteq> 0)"
| "truthy (JStr s) = (s \<noteq> [])"
| "truthy (JArr xs) = True"
| "truthy (JObj ps) = True"
| "truthy (JNative n) = True"

text \<open>
  The properties every ordinary object inherits from \<^verbatim>\<open>Object.prototype\<close>
  (ECMAScript, with Annex B). The getter \<^verbatim>\<open>__proto__\<close> returns the prototype itself.
\<close>

definition object_prototype :: "(string \<times> jsval) list" where
  "object_prototype =
    [(''constructor'', JNative ''Object''),
     (''__proto__'', JNative ''Object.prototype''),
     (''hasOwnProperty'', JNative ''Object.prototype.hasOwnProperty''),
     (''isPrototypeOf'', JNative ''Object.prototype.isPrototypeOf''),
     (''propertyIsEnumerable'', JNative ''Object.prototype.propertyIsEnumerable''),
     (''toLocaleString'', JNative ''Object.prototype.toLocaleString''),
     (''toString'', JNative ''Object.prototype.toString''),
     (''valueOf'', JNative ''Object.prototype.valueOf''),
     (''__defineGetter__'', JNative ''Object.prototype.__defineGetter__''),
     (''__defineSetter__'', JNative ''Object.prototype.__defineSetter__''),
     (''__lookupGetter__'', JNative ''Object.prototype.__lookupGetter__''),
     (''__lookupSetter__'', JNative ''Object.prototype.__lookupSetter__'')]"

text \<open>
  \<^verbatim>\<open>o[k]\<close> for a string key: own property, then the prototype chain. Reading a property
  of \<^verbatim>\<open>undefined\<close> or \<^verbatim>\<open>null\<close> throws.
\<close>

fun get :: "runtime \<Rightarrow> jsval \<Rightarrow> string \<Rightarrow> error + jsval" where
  "get rt (JObj ps) k =
     (case map_of ps k of
        Some v \<Rightarrow> Inr v
      | None \<Rightarrow>
          (case map_of object_prototype k of
             Some v \<Rightarrow> Inr v
           | None \<Rightarrow> Inr JUndefined))"
| "get rt JUndefined k = Inl (Error ''TypeError'')"
| "get rt JNull k = Inl (Error ''TypeError'')"
| "get rt v k = rt v k"

text \<open>
  \<^verbatim>\<open>xs[i]\<close> for an array and an integral number: the element inside the bounds,
  \<^verbatim>\<open>undefined\<close> outside (no inherited property has a numeric name).
\<close>

definition index_get :: "jsval list \<Rightarrow> int \<Rightarrow> jsval" where
  "index_get xs i = (if 0 \<le> i \<and> nat i < length xs then xs ! nat i else JUndefined)"

section \<open>Strings\<close>

text \<open>White space of \<^verbatim>\<open>trim\<close> and \<^verbatim>\<open>parseInt\<close>: TAB, LF, VT, FF, CR, SP, NBSP.\<close>

definition is_ws :: "char \<Rightarrow> bool" where
  "is_ws c = (of_char c \<in> {9, 10, 11, 12, 13, 32, 160 :: nat})"

definition trim :: "string \<Rightarrow> string" where
  "trim s = rev (dropWhile is_ws (rev (dropWhile is_ws s)))"

text \<open>\<^verbatim>\<open>s.split(sep)\<close> for a non-empty separator; \<open>cur\<close> is the part being read, reversed.\<close>

function split_from :: "string \<Rightarrow> string \<Rightarrow> string \<Rightarrow> string list" where
  "split_from sep cur s =
     (if s = [] then [rev cur]
      else if sep \<noteq> [] \<and> take (length sep) s = sep
        then rev cur # split_from sep [] (drop (length sep) s)
      else split_from sep (hd s # cur) (tl s))"
  by pat_completeness auto
termination
  by (relation "measure (\<lambda>(sep, cur, s). length s)") (auto simp: neq_Nil_conv)

declare split_from.simps [simp del]

definition split :: "string \<Rightarrow> string \<Rightarrow> string list" where
  "split sep s = split_from sep [] s"

text \<open>Decimal digits of a number, as \<^verbatim>\<open>`${index}`\<close> prints an integer.\<close>

definition digit_char :: "nat \<Rightarrow> char" where
  "digit_char d = char_of (48 + d)"

function dec :: "nat \<Rightarrow> string" where
  "dec n = (if n < 10 then [digit_char n] else dec (n div 10) @ [digit_char (n mod 10)])"
  by pat_completeness auto
termination
  by (relation "measure id") auto

declare dec.simps [simp del]

definition number_to_string :: "int \<Rightarrow> string" where
  "number_to_string i = (if i < 0 then CHR ''-'' # dec (nat (- i)) else dec (nat i))"

text \<open>
  \<^verbatim>\<open>parseInt(x)\<close> with no radix: white space is skipped, a sign read, \<^verbatim>\<open>0x\<close> selects
  radix 16, and the longest prefix of digits is the value; \<open>None\<close> is \<^verbatim>\<open>NaN\<close>.
  \<^verbatim>\<open>undefined\<close> is read as the string \<^verbatim>\<open>"undefined"\<close>, which has no digit.
  The value is the exact integer: the double that JavaScript returns differs from it
  only above \<open>2 ^ 53\<close>, beyond the length of any array.
\<close>

definition digit_val :: "char \<Rightarrow> nat option" where
  "digit_val c =
     (let n = of_char c :: nat in
      if 48 \<le> n \<and> n \<le> 57 then Some (n - 48)
      else if 97 \<le> n \<and> n \<le> 122 then Some (n - 87)
      else if 65 \<le> n \<and> n \<le> 90 then Some (n - 55)
      else None)"

text \<open>The values of the longest prefix of digits of the radix.\<close>

fun digit_prefix :: "nat \<Rightarrow> string \<Rightarrow> nat list" where
  "digit_prefix radix [] = []"
| "digit_prefix radix (c # cs) =
     (case digit_val c of
        None \<Rightarrow> []
      | Some d \<Rightarrow> if d < radix then d # digit_prefix radix cs else [])"

definition digits_value :: "nat \<Rightarrow> nat list \<Rightarrow> nat" where
  "digits_value radix ds = foldl (\<lambda>acc d. acc * radix + d) 0 ds"

definition parseInt_string :: "string \<Rightarrow> int option" where
  "parseInt_string s =
     (let s1 = dropWhile is_ws s;
          neg = (s1 \<noteq> [] \<and> hd s1 = CHR ''-'');
          s2 = (if s1 \<noteq> [] \<and> (hd s1 = CHR ''-'' \<or> hd s1 = CHR ''+'') then tl s1 else s1);
          hex = (take 2 s2 = ''0x'' \<or> take 2 s2 = ''0X'');
          radix = (if hex then 16 else 10);
          s3 = (if hex then drop 2 s2 else s2);
          ds = digit_prefix radix s3
      in if ds = [] then None
         else Some ((if neg then - 1 else 1) * int (digits_value radix ds)))"

definition parseInt :: "string option \<Rightarrow> int option" where
  "parseInt x = (case x of None \<Rightarrow> parseInt_string ''undefined'' | Some s \<Rightarrow> parseInt_string s)"

section \<open>The search handler: resolution of a match\<close>

text \<open>A match of the similarity index: \<^verbatim>\<open>match.metadata.source\<close> and \<^verbatim>\<open>match.score\<close>.\<close>

record match =
  source :: string
  score :: rat

text \<open>
  \<^verbatim>\<open>pathParts[1]\<close> is \<^verbatim>\<open>undefined\<close> (\<open>None\<close>) when the tag has no delimiter. As a property
  key \<^verbatim>\<open>undefined\<close> is the string \<^verbatim>\<open>"undefined"\<close>; as a value it stays \<^verbatim>\<open>undefined\<close>.
\<close>

definition key_string :: "string option \<Rightarrow> string" where
  "key_string k = (case k of None \<Rightarrow> ''undefined'' | Some s \<Rightarrow> s)"

definition key_value :: "string option \<Rightarrow> jsval" where
  "key_value k = (case k of None \<Rightarrow> JUndefined | Some s \<Rightarrow> JStr s)"

text \<open>
  Lines 96 to 112: the pair \<open>(guide, uniqueId)\<close> after the lookup, both \<^verbatim>\<open>undefined\<close>
  when no branch assigned them. The \<open>JArr\<close> case is \<^verbatim>\<open>Array.isArray\<close>.
\<close>

definition find_guide :: "runtime \<Rightarrow> jsval \<Rightarrow> string \<Rightarrow> string option \<Rightarrow> error + (jsval \<times> jsval)" where
  "find_guide rt guideData category guideKeyOrIndex =
     (case get rt guideData category of
        Inl e \<Rightarrow> Inl e
      | Inr c \<Rightarrow>
          if truthy c then
            (case c of
               JArr xs \<Rightarrow>
                 (case parseInt guideKeyOrIndex of
                    None \<Rightarrow> Inr (JUndefined, JUndefined)
                  | Some index \<Rightarrow>
                      if truthy (index_get xs index)
                      then Inr (index_get xs index,
                                JStr (category @ ''-'' @ number_to_string index))
                      else Inr (JUndefined, JUndefined))
             | _ \<Rightarrow>
                 (case get rt c (key_string guideKeyOrIndex) of
                    Inl e \<Rightarrow> Inl e
                  | Inr g \<Rightarrow>
                      if truthy g then Inr (g, key_value guideKeyOrIndex)
                      else Inr (JUndefined, JUndefined)))
          else Inr (JUndefined, JUndefined))"

text \<open>
  Lines 90 to 94: the tag is split and its first two parts are used. A split has at
  least one part, so the first is always there.
\<close>

definition pathParts :: "string \<Rightarrow> string list" where
  "pathParts src = split '' > '' src"

definition category_of :: "string \<Rightarrow> string" where
  "category_of src = hd (pathParts src)"

definition guideKeyOrIndex_of :: "string \<Rightarrow> string option" where
  "guideKeyOrIndex_of src =
     (if 1 < length (pathParts src) then Some (pathParts src ! 1) else None)"

definition resolve :: "runtime \<Rightarrow> jsval \<Rightarrow> string \<Rightarrow> error + (jsval \<times> jsval)" where
  "resolve rt guideData src =
     find_guide rt guideData (category_of src) (guideKeyOrIndex_of src)"

section \<open>The search handler: deduplication, ranking, truncation\<close>

text \<open>
  The own enumerable properties that \<^verbatim>\<open>...guide\<close> copies: those of an object, the
  elements of an array and the characters of a string under their indices, none of a
  number, a boolean or a built-in object.
\<close>

fun own_enumerable :: "jsval \<Rightarrow> (string \<times> jsval) list" where
  "own_enumerable (JObj ps) = ps"
| "own_enumerable (JArr xs) = zip (map dec [0..<length xs]) xs"
| "own_enumerable (JStr s) = zip (map dec [0..<length s]) (map (\<lambda>c. JStr [c]) s)"
| "own_enumerable v = []"

text \<open>
  Copying properties onto an object, in order: a key that is there keeps its place
  and takes the new value, a new key goes to the end. A key listed twice in the
  source counts once, as \<^const>\<open>map_of\<close> reads it. The engine lists keys that are
  array indices before the others; the position of a key in the list is not part of
  the model, an object being read with \<^const>\<open>map_of\<close> only.
\<close>

definition copy_properties :: "(string \<times> jsval) list \<Rightarrow> (string \<times> jsval) list \<Rightarrow> (string \<times> jsval) list" where
  "copy_properties ps target = fold (\<lambda>(k, v). AList.update k v) (AList.clearjunk ps) target"

text \<open>
  Lines 115 to 119, \<^verbatim>\<open>{ id: uniqueId, ...guide, score: match.score }\<close>: \<^verbatim>\<open>id\<close> is defined
  first, the properties of the guide are copied over it, \<^verbatim>\<open>score\<close> is defined last.
\<close>

definition result_object :: "jsval \<Rightarrow> jsval \<Rightarrow> rat \<Rightarrow> jsval" where
  "result_object uniqueId guide sc =
     JObj (AList.update ''score'' (JNum sc)
             (copy_properties (own_enumerable guide) [(''id'', uniqueId)]))"

text \<open>
  The \<^verbatim>\<open>Map\<close> \<open>retrievedGuides\<close>, in insertion order. \<^verbatim>\<open>set\<close> replaces the value of a
  key that is there and appends a new key, which is \<^const>\<open>AList.update\<close>.
\<close>

type_synonym guide_map = "(jsval \<times> jsval) list"

definition has :: "guide_map \<Rightarrow> jsval \<Rightarrow> bool" where
  "has m k = (k \<in> set (map fst m))"

text \<open>Lines 89 to 121: the loop over the matches; a throw leaves the loop.\<close>

fun retrieve :: "runtime \<Rightarrow> jsval \<Rightarrow> guide_map \<Rightarrow> match list \<Rightarrow> error + guide_map" where
  "retrieve rt guideData retrievedGuides [] = Inr retrievedGuides"
| "retrieve rt guideData retrievedGuides (m # ms) =
     (case resolve rt guideData (source m) of
        Inl e \<Rightarrow> Inl e
      | Inr (guide, uniqueId) \<Rightarrow>
          if truthy guide \<and> \<not> has retrievedGuides uniqueId
          then retrieve rt guideData
                 (AList.update uniqueId (result_object uniqueId guide (score m)) retrievedGuides) ms
          else retrieve rt guideData retrievedGuides ms)"

text \<open>
  \<^verbatim>\<open>a.score\<close> of an object of the map and the comparator \<^verbatim>\<open>(a, b) => b.score - a.score\<close>.
  Every object the loop builds has a number under \<^verbatim>\<open>score\<close>; the difference of anything
  else is not reached and stands for \<^verbatim>\<open>NaN\<close>, which the sort reads as \<open>0\<close>.
\<close>

definition score_of :: "jsval \<Rightarrow> rat option" where
  "score_of a =
     (case a of
        JObj ps \<Rightarrow> (case map_of ps ''score'' of Some (JNum x) \<Rightarrow> Some x | _ \<Rightarrow> None)
      | _ \<Rightarrow> None)"

definition compareFn :: "jsval \<Rightarrow> jsval \<Rightarrow> rat" where
  "compareFn a b =
     (case (score_of b, score_of a) of
        (Some y, Some x) \<Rightarrow> y - x
      | _ \<Rightarrow> 0)"

text \<open>
  \<^verbatim>\<open>Array.prototype.sort\<close> is stable, and with a consistent comparator its result is
  the stable ordering; that ordering is computed here by insertion.
\<close>

fun insert_by :: "('a \<Rightarrow> 'a \<Rightarrow> rat) \<Rightarrow> 'a \<Rightarrow> 'a list \<Rightarrow> 'a list" where
  "insert_by cmp x [] = [x]"
| "insert_by cmp x (y # ys) =
     (if cmp x y \<le> 0 then x # y # ys else y # insert_by cmp x ys)"

definition js_sort :: "('a \<Rightarrow> 'a \<Rightarrow> rat) \<Rightarrow> 'a list \<Rightarrow> 'a list" where
  "js_sort cmp xs = foldr (insert_by cmp) xs []"

text \<open>Lines 88 to 126: the array sent with status 200, or the error thrown.\<close>

definition results :: "runtime \<Rightarrow> jsval \<Rightarrow> match list \<Rightarrow> error + jsval list" where
  "results rt guideData matches =
     (case retrieve rt guideData [] matches of
        Inl e \<Rightarrow> Inl e
      | Inr retrievedGuides \<Rightarrow> Inr (take 5 (js_sort compareFn (map snd retrievedGuides))))"

section \<open>The endpoints and the initialization\<close>

text \<open>
  The embedding pipeline and the index client are external: functions that return a
  value or throw. \<open>pinecone\<close>, \<open>pipe\<close> and \<open>guideData\<close> are the three globals of line 27.
\<close>

type_synonym embedder = "string \<Rightarrow> error + rat list"
type_synonym index_client = "rat list \<Rightarrow> error + match list"

record server =
  pinecone :: "index_client option"
  pipe :: "embedder option"
  guideData :: jsval

definition initial_server :: server where
  "initial_server = \<lparr>pinecone = None, pipe = None, guideData = JUndefined\<rparr>"

record response =
  status :: nat
  body :: jsval

datatype call = Embed string | Query "rat list"

definition error_message :: "error \<Rightarrow> string" where
  "error_message e = (case e of Error m \<Rightarrow> m)"

definition not_ready :: "server \<Rightarrow> response" where
  "not_ready st =
     \<lparr>status = 503,
      body = JObj [(''error'', JStr ''Server is not ready, please try again later.''),
                   (''details'', JStr (if \<not> truthy (guideData st) then ''Data not loaded''
                                       else ''AI services not initialized''))]\<rparr>"

definition bad_request :: response where
  "bad_request = \<lparr>status = 400, body = JObj [(''error'', JStr ''Valid query string is required'')]\<rparr>"

definition search_failed :: "string \<Rightarrow> error \<Rightarrow> response" where
  "search_failed env e =
     \<lparr>status = 500,
      body = JObj [(''error'', JStr ''Failed to perform search.''),
                   (''details'', if env = ''development'' then JStr (error_message e)
                                 else JUndefined)]\<rparr>"

text \<open>
  Line 70, \<^verbatim>\<open>!query || typeof query !== 'string' || query.trim().length === 0\<close>; the
  second equation is a value that is not a string.
\<close>

fun invalid_query :: "jsval \<Rightarrow> bool" where
  "invalid_query (JStr s) = (\<not> truthy (JStr s) \<or> length (trim s) = 0)"
| "invalid_query v = True"

text \<open>
  Lines 61 to 135, with the calls made to the two external services, in order.
  \<open>env\<close> is \<^verbatim>\<open>NODE_ENV\<close>.
\<close>

definition search :: "string \<Rightarrow> runtime \<Rightarrow> server \<Rightarrow> jsval \<Rightarrow> response \<times> call list" where
  "search env rt st query =
     (case (pinecone st, pipe st) of
        (Some client, Some extractor) \<Rightarrow>
          if \<not> truthy (guideData st) then (not_ready st, [])
          else if invalid_query query then (bad_request, [])
          else
            (case query of
               JStr q \<Rightarrow>
                 (case extractor q of
                    Inl e \<Rightarrow> (search_failed env e, [Embed q])
                  | Inr queryVector \<Rightarrow>
                      (case client queryVector of
                         Inl e \<Rightarrow> (search_failed env e, [Embed q, Query queryVector])
                       | Inr matches \<Rightarrow>
                           (case results rt (guideData st) matches of
                              Inl e \<Rightarrow> (search_failed env e, [Embed q, Query queryVector])
                            | Inr rs \<Rightarrow>
                                (\<lparr>status = 200, body = JArr rs\<rparr>,
                                 [Embed q, Query queryVector]))))
             | _ \<Rightarrow> (bad_request, []))
      | _ \<Rightarrow> (not_ready st, []))"

text \<open>Lines 138 to 153, the data endpoint.\<close>

definition data_endpoint :: "server \<Rightarrow> response" where
  "data_endpoint st =
     (if \<not> truthy (guideData st)
      then \<lparr>status = 503,
            body = JObj [(''error'', JStr ''Server is not ready, please try again later.'')]\<rparr>
      else \<lparr>status = 200, body = JObj [(''bmw_z3_guide'', guideData st)]\<rparr>)"

text \<open>
  The environment of the process: the two variables read at lines 8 and 11, and
  \<^verbatim>\<open>data.json\<close>, which is absent, not JSON, or parses to a value. The constructor of
  the index client and the loading of the pipeline are external and may throw.
\<close>

datatype data_file = NoFile | BadJson | Json jsval

record environment =
  PINECONE_API_KEY :: "string option"
  NODE_ENV :: "string option"
  data_json :: data_file

record library =
  new_Pinecone :: "string option \<Rightarrow> error + index_client"
  load_pipeline :: "error + embedder"

datatype process = Exited nat | Running server

text \<open>Line 11, \<^verbatim>\<open>process.env.NODE_ENV || 'development'\<close>.\<close>

definition node_env :: "environment \<Rightarrow> string" where
  "node_env e =
     (case NODE_ENV e of
        None \<Rightarrow> ''development''
      | Some s \<Rightarrow> if s = [] then ''development'' else s)"

text \<open>Lines 51 to 57, the \<^verbatim>\<open>catch\<close> block, with the globals as they are at the throw.\<close>

definition init_failed :: "environment \<Rightarrow> server \<Rightarrow> process" where
  "init_failed e st = (if node_env e \<noteq> ''production'' then Exited 1 else Running st)"

text \<open>
  Lines 30 to 58. \<open>guideData\<close> is assigned at line 41, before \<^verbatim>\<open>Object.keys\<close> (which
  throws on \<^verbatim>\<open>undefined\<close> and \<^verbatim>\<open>null\<close>) and before the index client is built.
\<close>

definition initialize :: "runtime \<Rightarrow> library \<Rightarrow> environment \<Rightarrow> server \<Rightarrow> process" where
  "initialize rt lib e st =
     (if PINECONE_API_KEY e = Some ''YOUR_API_KEY'' then init_failed e st
      else
        (case data_json e of
           NoFile \<Rightarrow> init_failed e st
         | BadJson \<Rightarrow> init_failed e st
         | Json parsed \<Rightarrow>
             (case get rt parsed ''bmw_z3_guide'' of
                Inl err \<Rightarrow> init_failed e st
              | Inr gd \<Rightarrow>
                  if gd = JUndefined \<or> gd = JNull
                  then init_failed e (st\<lparr>guideData := gd\<rparr>)
                  else
                    (case new_Pinecone lib (PINECONE_API_KEY e) of
                       Inl err \<Rightarrow> init_failed e (st\<lparr>guideData := gd\<rparr>)
                     | Inr client \<Rightarrow>
                         (case load_pipeline lib of
                            Inl err \<Rightarrow>
                              init_failed e (st\<lparr>guideData := gd, pinecone := Some client\<rparr>)
                          | Inr p \<Rightarrow>
                              Running (st\<lparr>guideData := gd, pinecone := Some client,
                                          pipe := Some p\<rparr>))))))"

section \<open>Notions used in the statements\<close>

text \<open>
  What the resolution of a match yields: its guide, its uniqueId, whether it resolved
  (the guide is truthy, the test of line 114), and the uniqueIds in the order of the
  first match that resolves to each.
\<close>

definition guide_of :: "runtime \<Rightarrow> jsval \<Rightarrow> match \<Rightarrow> jsval" where
  "guide_of rt gd m = (case resolve rt gd (source m) of Inl e \<Rightarrow> JUndefined | Inr (g, u) \<Rightarrow> g)"

definition uniqueId_of :: "runtime \<Rightarrow> jsval \<Rightarrow> match \<Rightarrow> jsval" where
  "uniqueId_of rt gd m = (case resolve rt gd (source m) of Inl e \<Rightarrow> JUndefined | Inr (g, u) \<Rightarrow> u)"

definition resolved :: "runtime \<Rightarrow> jsval \<Rightarrow> match \<Rightarrow> bool" where
  "resolved rt gd m = (case resolve rt gd (source m) of Inl e \<Rightarrow> False | Inr (g, u) \<Rightarrow> truthy g)"

definition resolves_to :: "runtime \<Rightarrow> jsval \<Rightarrow> jsval \<Rightarrow> match \<Rightarrow> bool" where
  "resolves_to rt gd u m = (resolved rt gd m \<and> uniqueId_of rt gd m = u)"

definition first_seen :: "runtime \<Rightarrow> jsval \<Rightarrow> match list \<Rightarrow> jsval list" where
  "first_seen rt gd ms =
     rev (remdups (rev (map (uniqueId_of rt gd) (filter (resolved rt gd) ms))))"

section \<open>A small knowledge base\<close>

text \<open>
  Concrete inputs for the examples: a runtime in which no built-in object has a
  property, a guide with an ordered and a keyed category, and a list of matches with
  repeated tags, equal scores and an entry that is \<^verbatim>\<open>null\<close>.
\<close>

definition no_natives :: runtime where
  "no_natives v k = Inr JUndefined"

definition entry :: "string \<Rightarrow> jsval" where
  "entry t = JObj [(''title'', JStr t)]"

definition scored :: "string \<Rightarrow> string \<Rightarrow> rat \<Rightarrow> jsval" where
  "scored i t sc = JObj [(''id'', JStr i), (''title'', JStr t), (''score'', JNum sc)]"

definition example_guide :: jsval where
  "example_guide =
     JObj [(''Engine'', JArr [entry ''oil'', entry ''belt'', entry ''plugs'', JNull, entry ''pump'']),
           (''Specs'', JObj [(''idle_speed'', entry ''idle''), (''torque'', entry ''torque''),
                             (''zero'', JNum 0)])]"

definition example_matches :: "match list" where
  "example_matches =
     [\<lparr>source = ''Engine > 2'', score = 7/10\<rparr>,
      \<lparr>source = ''Specs > idle_speed'', score = 9/10\<rparr>,
      \<lparr>source = ''Engine > 0'', score = 7/10\<rparr>,
      \<lparr>source = ''Engine > 2'', score = 8/10\<rparr>,
      \<lparr>source = ''Engine > 3'', score = 6/10\<rparr>,
      \<lparr>source = ''Engine > 1'', score = 5/10\<rparr>,
      \<lparr>source = ''Specs > torque'', score = 4/10\<rparr>,
      \<lparr>source = ''Engine > 4'', score = 3/10\<rparr>]"

definition example_server :: server where
  "example_server =
     \<lparr>pinecone = Some (\<lambda>v. Inr example_matches), pipe = Some (\<lambda>q. Inr [1]),
      guideData = example_guide\<rparr>"

text \<open>A guide whose entry has an \<^verbatim>\<open>id\<close> and a \<^verbatim>\<open>score\<close> field of its own.\<close>

definition custom_guide :: jsval where
  "custom_guide =
     JObj [(''Engine'', JArr [JObj [(''id'', JStr ''custom''), (''title'', JStr ''oil''),
                                     (''score'', JNum 99)]])]"

text \<open>
  An index client library whose constructor rejects a missing key, and an environment
  with a valid \<^verbatim>\<open>data.json\<close>, given the credential and \<^verbatim>\<open>NODE_ENV\<close>.
\<close>

definition strict_library :: library where
  "strict_library =
     \<lparr>new_Pinecone = (\<lambda>key. case key of
                                None \<Rightarrow> Inl (Error ''apiKey is required'')
                              | Some k \<Rightarrow> Inr (\<lambda>v. Inr example_matches)),
      load_pipeline = Inr (\<lambda>q. Inr [1])\<rparr>"

definition example_environment :: "string option \<Rightarrow> string option \<Rightarrow> environment" where
  "example_environment key mode =
     \<lparr>PINECONE_API_KEY = key, NODE_ENV = mode,
      data_json = Json (JObj [(''bmw_z3_guide'', example_guide)])\<rparr>"

section \<open>The map of retrieved guides\<close>

lemma results_length: "results rt gd ms = Inr rs \<Longrightarrow> length rs \<le> 5"
  by (auto simp: results_def split: sum.splits)

lemma update_absent: "k \<notin> fst ` set al \<Longrightarrow> AList.update k v al = al @ [(k, v)]"
  by (induction al) auto

lemma has_iff: "has m k \<longleftrightarrow> map_of m k \<noteq> None"
  by (simp add: has_def map_of_eq_None_iff)

lemma retrieve_map_of:
  "retrieve rt gd acc ms = Inr tbl \<Longrightarrow>
   map_of tbl u =
     (case map_of acc u of
        Some v \<Rightarrow> Some v
      | None \<Rightarrow>
          (case find (resolves_to rt gd u) ms of
             None \<Rightarrow> None
           | Some m \<Rightarrow> Some (result_object u (guide_of rt gd m) (score m))))"
proof (induction ms arbitrary: acc)
  case Nil
  then show ?case by (auto split: option.splits)
next
  case (Cons m ms)
  show ?case
  proof (cases "resolve rt gd (source m)")
    case (Inl e)
    with Cons.prems show ?thesis by simp
  next
    case (Inr p)
    obtain g u' where p: "p = (g, u')" by (cases p)
    have hm: "resolves_to rt gd u m \<longleftrightarrow> truthy g \<and> u' = u"
      using Inr p by (simp add: resolves_to_def resolved_def uniqueId_of_def)
    have gm: "guide_of rt gd m = g"
      using Inr p by (simp add: guide_of_def)
    show ?thesis
    proof (cases "truthy g \<and> \<not> has acc u'")
      case True
      with Cons.prems Inr p
      have "retrieve rt gd (AList.update u' (result_object u' g (score m)) acc) ms = Inr tbl"
        by simp
      from Cons.IH[OF this] have
        "map_of tbl u =
          (case ((map_of acc)(u' \<mapsto> result_object u' g (score m))) u of
             Some v \<Rightarrow> Some v
           | None \<Rightarrow>
              (case find (resolves_to rt gd u) ms of
                 None \<Rightarrow> None
               | Some m \<Rightarrow> Some (result_object u (guide_of rt gd m) (score m))))"
        by (simp add: update_conv')
      with True hm gm show ?thesis
        by (cases "u' = u") (auto simp: has_iff split: option.splits)
    next
      case False
      with Cons.prems Inr p have "retrieve rt gd acc ms = Inr tbl" by auto
      from Cons.IH[OF this] False hm show ?thesis
        by (cases "u' = u") (auto simp: has_iff split: option.splits)
    qed
  qed
qed

lemma retrieve_distinct:
  "retrieve rt gd acc ms = Inr tbl \<Longrightarrow> distinct (map fst acc) \<Longrightarrow> distinct (map fst tbl)"
proof (induction ms arbitrary: acc)
  case Nil
  then show ?case by simp
next
  case (Cons m ms)
  then show ?case
    by (auto split: sum.splits prod.splits if_splits simp: distinct_update)
qed

lemma score_of_result_object: "score_of (result_object u g sc) = Some sc"
  by (simp add: score_of_def result_object_def update_conv')

lemma retrieve_scored:
  "retrieve rt gd acc ms = Inr tbl \<Longrightarrow> \<forall>v\<in>snd ` set acc. score_of v \<noteq> None \<Longrightarrow>
   \<forall>v\<in>snd ` set tbl. score_of v \<noteq> None"
proof (induction ms arbitrary: acc)
  case Nil
  then show ?case by simp
next
  case (Cons m ms)
  show ?case
  proof (cases "resolve rt gd (source m)")
    case (Inl e)
    with Cons.prems show ?thesis by simp
  next
    case (Inr p)
    obtain g u' where p: "p = (g, u')" by (cases p)
    show ?thesis
    proof (cases "truthy g \<and> \<not> has acc u'")
      case True
      with Cons.prems Inr p
      have r: "retrieve rt gd (AList.update u' (result_object u' g (score m)) acc) ms = Inr tbl"
        by simp
      have "\<forall>v\<in>snd ` set (AList.update u' (result_object u' g (score m)) acc). score_of v \<noteq> None"
        using Cons.prems(2) True
        by (auto simp: score_of_result_object has_def update_absent)
      from Cons.IH[OF r this] show ?thesis .
    next
      case False
      with Cons.prems Inr p have "retrieve rt gd acc ms = Inr tbl" by auto
      from Cons.IH[OF this Cons.prems(2)] show ?thesis .
    qed
  qed
qed


lemma remdups_snoc: "remdups (ys @ [x]) = filter (\<lambda>y. y \<noteq> x) (remdups ys) @ [x]"
  by (induction ys) auto

lemma first_seen_Cons:
  "first_seen rt gd (m # ms) =
     (if resolved rt gd m
      then uniqueId_of rt gd m # filter (\<lambda>y. y \<noteq> uniqueId_of rt gd m) (first_seen rt gd ms)
      else first_seen rt gd ms)"
  by (simp add: first_seen_def remdups_snoc rev_filter)

lemma retrieve_keys:
  "retrieve rt gd acc ms = Inr tbl \<Longrightarrow>
   map fst tbl = map fst acc @ filter (\<lambda>u. u \<notin> fst ` set acc) (first_seen rt gd ms)"
proof (induction ms arbitrary: acc)
  case Nil
  then show ?case by (simp add: first_seen_def)
next
  case (Cons m ms)
  show ?case
  proof (cases "resolve rt gd (source m)")
    case (Inl e)
    with Cons.prems show ?thesis by simp
  next
    case (Inr p)
    obtain g u' where p: "p = (g, u')" by (cases p)
    have rm: "resolved rt gd m \<longleftrightarrow> truthy g" and um: "uniqueId_of rt gd m = u'"
      using Inr p by (simp_all add: resolved_def uniqueId_of_def)
    show ?thesis
    proof (cases "truthy g \<and> \<not> has acc u'")
      case True
      then have absent: "u' \<notin> fst ` set acc" by (simp add: has_def)
      with True Cons.prems Inr p
      have "retrieve rt gd (acc @ [(u', result_object u' g (score m))]) ms = Inr tbl"
        by (simp add: update_absent)
      from Cons.IH[OF this] have
        "map fst tbl = map fst acc @ u' #
           filter (\<lambda>u. u \<notin> fst ` set acc \<and> u \<noteq> u') (first_seen rt gd ms)"
        by (simp add: conj_commute)
      with True absent rm um show ?thesis
        by (simp add: first_seen_Cons conj_commute)
    next
      case False
      with Cons.prems Inr p have "retrieve rt gd acc ms = Inr tbl" by auto
      from Cons.IH[OF this] have ih:
        "map fst tbl = map fst acc @ filter (\<lambda>u. u \<notin> fst ` set acc) (first_seen rt gd ms)" .
      show ?thesis
      proof (cases "truthy g")
        case True
        with False have "u' \<in> fst ` set acc" by (simp add: has_def)
        then have "filter (\<lambda>u. u \<notin> fst ` set acc) (filter (\<lambda>y. y \<noteq> u') (first_seen rt gd ms))
            = filter (\<lambda>u. u \<notin> fst ` set acc) (first_seen rt gd ms)"
          by (auto intro: filter_cong)
        with ih True rm um \<open>u' \<in> fst ` set acc\<close> show ?thesis
          by (simp add: first_seen_Cons)
      next
        case False
        with ih rm show ?thesis by (simp add: first_seen_Cons)
      qed
    qed
  qed
qed

lemma insert_by_insort:
  "score_of x \<noteq> None \<Longrightarrow> \<forall>y\<in>set ys. score_of y \<noteq> None \<Longrightarrow>
   insert_by compareFn x ys = insort_key (\<lambda>a. - the (score_of a)) x ys"
  by (induction ys) (auto simp: compareFn_def)

lemma js_sort_sort_key:
  "\<forall>x\<in>set xs. score_of x \<noteq> None \<Longrightarrow>
   js_sort compareFn xs = sort_key (\<lambda>a. - the (score_of a)) xs"
proof (induction xs)
  case Nil
  then show ?case by (simp add: js_sort_def)
next
  case (Cons x xs)
  then have "js_sort compareFn xs = sort_key (\<lambda>a. - the (score_of a)) xs" by simp
  moreover have "\<forall>y\<in>set (sort_key (\<lambda>a. - the (score_of a)) xs). score_of y \<noteq> None"
    using Cons.prems by simp
  ultimately show ?case
    using Cons.prems by (simp add: js_sort_def sort_key_def insert_by_insort)
qed

lemma filter_take_prefix: "prefix (filter P (take n xs)) (filter P xs)"
proof -
  have "filter P xs = filter P (take n xs) @ filter P (drop n xs)"
    by (metis append_take_drop_id filter_append)
  then show ?thesis by (simp add: prefix_def)
qed

section \<open>Dropped matches and the two kinds of category\<close>

lemma retrieve_append:
  "retrieve rt gd acc (xs @ ys) =
     (case retrieve rt gd acc xs of Inl e \<Rightarrow> Inl e | Inr acc' \<Rightarrow> retrieve rt gd acc' ys)"
  by (induction xs arbitrary: acc) (auto split: sum.splits prod.splits)

lemma results_skip:
  assumes "resolve rt gd (source m) = Inr (g, u)" and "\<not> truthy g"
  shows "results rt gd (ms1 @ m # ms2) = results rt gd (ms1 @ ms2)"
proof -
  have "retrieve rt gd [] (ms1 @ m # ms2) = retrieve rt gd [] (ms1 @ ms2)"
    using assms by (simp add: retrieve_append split: sum.splits)
  then show ?thesis by (simp add: results_def)
qed

lemma find_guide_array:
  "map_of kb c = Some (JArr xs) \<Longrightarrow>
   find_guide rt (JObj kb) c k =
     Inr (case parseInt k of
            None \<Rightarrow> (JUndefined, JUndefined)
          | Some i \<Rightarrow>
              if 0 \<le> i \<and> nat i < length xs \<and> truthy (xs ! nat i)
              then (xs ! nat i, JStr (c @ ''-'' @ number_to_string i))
              else (JUndefined, JUndefined))"
  by (auto simp: find_guide_def index_get_def split: option.splits)

lemma inherited_truthy: "map_of object_prototype k = Some v \<Longrightarrow> truthy v"
  by (auto simp: object_prototype_def split: if_splits)

lemma find_guide_keyed:
  "map_of kb c = Some (JObj ps) \<Longrightarrow>
   find_guide rt (JObj kb) c k =
     Inr (case map_of ps (key_string k) of
            Some v \<Rightarrow> if truthy v then (v, key_value k) else (JUndefined, JUndefined)
          | None \<Rightarrow>
              (case map_of object_prototype (key_string k) of
                 Some v \<Rightarrow> (v, key_value k)
               | None \<Rightarrow> (JUndefined, JUndefined)))"
  by (auto simp: find_guide_def inherited_truthy split: option.splits)

lemma falsy_iff: "\<not> truthy v \<longleftrightarrow> v \<in> {JUndefined, JNull, JBool False, JNum 0, JStr []}"
  by (cases v) auto

section \<open>The sort keeps the elements\<close>

lemma set_insert_by: "set (insert_by cmp x ys) = insert x (set ys)"
  by (induction ys) auto

lemma set_js_sort: "set (js_sort cmp xs) = set xs"
  by (induction xs) (auto simp: js_sort_def set_insert_by)

section \<open>The first match and the fields of a result\<close>

lemma find_first_sorted:
  "find P xs = Some x \<Longrightarrow> y \<in> set xs \<Longrightarrow> P y \<Longrightarrow> sorted_wrt R xs \<Longrightarrow> x = y \<or> R x y"
  by (induction xs) (auto split: if_splits)

lemma map_of_fold_update:
  "distinct (map fst ps) \<Longrightarrow>
   map_of (fold (\<lambda>(k, v). AList.update k v) ps t) = map_of t ++ map_of ps"
proof (induction ps arbitrary: t)
  case Nil
  then show ?case by simp
next
  case (Cons p ps)
  obtain k v where p: "p = (k, v)" by (cases p)
  from Cons.prems p have none: "map_of ps k = None"
    by (simp add: map_of_eq_None_iff)
  have "map_of (fold (\<lambda>(k, v). AList.update k v) (p # ps) t)
      = map_of (AList.update k v t) ++ map_of ps"
    using Cons.IH[of "AList.update k v t"] Cons.prems p by simp
  also have "\<dots> = map_of t ++ map_of (p # ps)"
    using none p by (auto simp: update_conv' fun_eq_iff map_add_def split: option.splits)
  finally show ?case .
qed

lemma map_of_copy_properties: "map_of (copy_properties ps t) = map_of t ++ map_of ps"
  by (simp add: copy_properties_def map_of_fold_update map_of_clearjunk)

lemma result_object_fields:
  "result_object u g sc = JObj ps \<Longrightarrow>
   map_of ps k =
     (if k = ''score'' then Some (JNum sc)
      else case map_of (own_enumerable g) k of
             Some v \<Rightarrow> Some v
           | None \<Rightarrow> if k = ''id'' then Some u else None)"
  by (auto simp: result_object_def update_conv' map_of_copy_properties map_add_def
      split: option.splits)

section \<open>Decimal indices\<close>

lemma of_char_digit: "d < 10 \<Longrightarrow> (of_char (digit_char d) :: nat) = 48 + d"
  by (simp add: digit_char_def)

lemma digit_val_digit_char: "d < 10 \<Longrightarrow> digit_val (digit_char d) = Some d"
  by (simp add: digit_val_def of_char_digit)

lemma digit_char_not_ws: "d < 10 \<Longrightarrow> \<not> is_ws (digit_char d)"
  by (auto simp: is_ws_def of_char_digit)

lemma digit_char_neq:
  assumes "d < 10"
  shows "digit_char d \<noteq> CHR ''-''" "digit_char d \<noteq> CHR ''+''" "digit_char d \<noteq> CHR ''x''"
    "digit_char d \<noteq> CHR ''X''" "digit_char d \<noteq> CHR ''>''"
proof -
  have "(of_char (digit_char d) :: nat) \<noteq> of_char c"
    if "(of_char c :: nat) < 48 \<or> 58 \<le> (of_char c :: nat)" for c
    using that assms by (auto simp: of_char_digit)
  then have "digit_char d \<noteq> c" if "(of_char c :: nat) < 48 \<or> 58 \<le> (of_char c :: nat)" for c
    using that by blast
  then show "digit_char d \<noteq> CHR ''-''" "digit_char d \<noteq> CHR ''+''" "digit_char d \<noteq> CHR ''x''"
    "digit_char d \<noteq> CHR ''X''" "digit_char d \<noteq> CHR ''>''"
    by simp_all
qed

lemma dec_digits: "\<forall>c\<in>set (dec n). \<exists>d<10. c = digit_char d"
proof (induction n rule: dec.induct)
  case (1 n)
  show ?case
  proof (cases "n < 10")
    case True
    then show ?thesis by (subst dec.simps) auto
  next
    case False
    have "\<exists>d<10. digit_char (n mod 10) = digit_char d"
      by (rule exI[of _ "n mod 10"]) simp
    with False 1 show ?thesis
      by (subst dec.simps) auto
  qed
qed

lemma dec_nonempty: "dec n \<noteq> []"
  by (subst dec.simps) simp

lemma digit_prefix_digits:
  "\<forall>c\<in>set s. \<exists>d<10. c = digit_char d \<Longrightarrow>
   digit_prefix 10 s = map (\<lambda>c. of_char c - 48) s"
  by (induction s) (auto simp: digit_val_digit_char of_char_digit)

lemma digits_value_dec:
  "digits_value 10 (map (\<lambda>c. of_char c - 48) (dec n)) = n"
proof (induction n rule: dec.induct)
  case (1 n)
  show ?case
  proof (cases "n < 10")
    case True
    then show ?thesis
      by (subst dec.simps) (simp add: digits_value_def of_char_digit)
  next
    case False
    with 1 have ih: "digits_value 10 (map (\<lambda>c. of_char c - 48) (dec (n div 10))) = n div 10"
      by simp
    have "dec n = dec (n div 10) @ [digit_char (n mod 10)]"
      using False by (subst dec.simps) simp
    then have "digits_value 10 (map (\<lambda>c. of_char c - 48) (dec n))
        = digits_value 10 (map (\<lambda>c. of_char c - 48) (dec (n div 10))) * 10 + n mod 10"
      by (simp add: digits_value_def of_char_digit)
    with ih show ?thesis by simp
  qed
qed

lemma dec_no_char:
  assumes "\<And>d. d < 10 \<Longrightarrow> digit_char d \<noteq> c"
  shows "c \<notin> set (dec n)"
proof
  assume "c \<in> set (dec n)"
  with dec_digits[of n] obtain d where "d < 10" "c = digit_char d" by blast
  with assms[of d] show False by simp
qed

lemma take2_no_hex: "take 2 (dec n) \<noteq> ''0x'' \<and> take 2 (dec n) \<noteq> ''0X''"
proof -
  have x: "CHR ''x'' \<notin> set (dec n)" and X: "CHR ''X'' \<notin> set (dec n)"
    by (rule dec_no_char, rule digit_char_neq, assumption)+
  have "CHR ''x'' \<in> set (take 2 (dec n))" if "take 2 (dec n) = ''0x''"
    unfolding that by simp
  moreover have "CHR ''X'' \<in> set (take 2 (dec n))" if "take 2 (dec n) = ''0X''"
    unfolding that by simp
  ultimately show ?thesis
    using x X in_set_takeD[of _ 2 "dec n"] by blast
qed

lemma parseInt_string_digits:
  assumes "s \<noteq> []" and "\<not> is_ws (hd s)" and "hd s \<noteq> CHR ''-''" and "hd s \<noteq> CHR ''+''"
    and "take 2 s \<noteq> ''0x''" and "take 2 s \<noteq> ''0X''" and "digit_prefix 10 s \<noteq> []"
  shows "parseInt_string s = Some (int (digits_value 10 (digit_prefix 10 s)))"
proof -
  have dw: "dropWhile is_ws s = s" using assms(1,2) by (cases s) auto
  show ?thesis
    unfolding parseInt_string_def Let_def dw using assms(3-) by simp
qed

lemma parseInt_dec: "parseInt (Some (dec n)) = Some (int n)"
proof -
  obtain c cs where s: "dec n = c # cs"
    using dec_nonempty[of n] by (cases "dec n") auto
  from s dec_digits[of n] obtain d where d: "d < 10" "c = digit_char d" by auto
  have dp: "digit_prefix 10 (dec n) = map (\<lambda>c. of_char c - 48) (dec n)"
    using dec_digits by (rule digit_prefix_digits)
  then have ne: "digit_prefix 10 (dec n) \<noteq> []"
    using s by simp
  have "parseInt_string (dec n) = Some (int (digits_value 10 (digit_prefix 10 (dec n))))"
  proof (rule parseInt_string_digits)
    show "dec n \<noteq> []" by (rule dec_nonempty)
    show "\<not> is_ws (hd (dec n))" using s d by (simp add: digit_char_not_ws)
    show "hd (dec n) \<noteq> CHR ''-''" "hd (dec n) \<noteq> CHR ''+''"
      using s d by (simp_all add: digit_char_neq)
    show "take 2 (dec n) \<noteq> ''0x''" "take 2 (dec n) \<noteq> ''0X''"
      using take2_no_hex[of n] by simp_all
    show "digit_prefix 10 (dec n) \<noteq> []" by (rule ne)
  qed
  then show ?thesis
    by (simp add: parseInt_def dp digits_value_dec)
qed

section \<open>Tags of the form category, delimiter, key\<close>

lemma split_from_nonempty: "split_from sep cur s \<noteq> []"
proof (induction sep cur s rule: split_from.induct)
  case (1 sep cur s)
  then show ?case by (subst split_from.simps) simp
qed

lemma pathParts_nonempty: "pathParts src \<noteq> []"
  by (simp add: pathParts_def split_def split_from_nonempty)

lemma split_gt_step:
  "s \<noteq> [] \<Longrightarrow> take 3 s \<noteq> '' > '' \<Longrightarrow>
   split_from '' > '' cur s = split_from '' > '' (hd s # cur) (tl s)"
  by (subst split_from.simps) (simp add: numeral_3_eq_3)

lemma split_gt_match:
  "split_from '' > '' cur ('' > '' @ k) = rev cur # split_from '' > '' [] k"
  by (subst split_from.simps) simp

lemma split_gt_Cons:
  assumes "take 3 (x # s) \<noteq> '' > ''"
  shows "split_from '' > '' cur (x # s) = split_from '' > '' (x # cur) s"
  using split_gt_step[of "x # s" cur] assms by simp

lemma split_from_plain:
  "CHR ''>'' \<notin> set k \<Longrightarrow> split_from '' > '' cur k = [rev cur @ k]"
proof (induction k arbitrary: cur)
  case Nil
  then show ?case by (subst split_from.simps) simp
next
  case (Cons x k)
  have "take 3 (x # k) \<noteq> '' > ''"
  proof
    assume eq: "take 3 (x # k) = '' > ''"
    have "CHR ''>'' \<in> set (take 3 (x # k))" unfolding eq by simp
    then have "CHR ''>'' \<in> set (x # k)" by (rule in_set_takeD)
    with Cons.prems show False by simp
  qed
  then have "split_from '' > '' cur (x # k) = split_from '' > '' (x # cur) k"
    by (rule split_gt_Cons)
  with Cons show ?case by simp
qed

lemma split_from_tag:
  "CHR ''>'' \<notin> set c \<Longrightarrow>
   split_from '' > '' cur (c @ '' > '' @ k) = (rev cur @ c) # split_from '' > '' [] k"
proof (induction c arbitrary: cur)
  case Nil
  show ?case using split_gt_match[of cur k] by simp
next
  case (Cons x c)
  have "take 3 (x # c @ '' > '' @ k) \<noteq> '' > ''"
  proof (cases c)
    case Nil
    then show ?thesis by simp
  next
    case (Cons y c')
    with Cons.prems have "y \<noteq> CHR ''>''" by auto
    with Cons show ?thesis by simp
  qed
  then have "split_from '' > '' cur (x # c @ '' > '' @ k)
      = split_from '' > '' (x # cur) (c @ '' > '' @ k)"
    by (rule split_gt_Cons)
  with Cons show ?case by simp
qed

lemma tag_parts:
  assumes "CHR ''>'' \<notin> set c" and "CHR ''>'' \<notin> set k"
  shows "category_of (c @ '' > '' @ k) = c \<and> guideKeyOrIndex_of (c @ '' > '' @ k) = Some k"
proof -
  have "split_from '' > '' [] (c @ '' > '' @ k) = c # split_from '' > '' [] k"
    using split_from_tag[OF assms(1), of "[]" k] by simp
  also have "\<dots> = [c, k]"
    using split_from_plain[OF assms(2), of "[]"] by simp
  finally have "pathParts (c @ '' > '' @ k) = [c, k]"
    by (simp add: pathParts_def split_def)
  then show ?thesis
    by (simp add: category_of_def guideKeyOrIndex_of_def)
qed

lemma dec_no_gt: "CHR ''>'' \<notin> set (dec n)"
  by (rule dec_no_char, rule digit_char_neq, assumption)

section \<open>Tags that find nothing\<close>

lemma retrieve_none:
  "\<forall>x\<in>set ms. \<exists>g u. resolve rt gd (source x) = Inr (g, u) \<and> \<not> truthy g \<Longrightarrow>
   retrieve rt gd acc ms = Inr acc"
  by (induction ms) auto

lemma results_none:
  "\<forall>x\<in>set ms. \<exists>g u. resolve rt gd (source x) = Inr (g, u) \<and> \<not> truthy g \<Longrightarrow>
   results rt gd ms = Inr []"
  by (simp add: results_def retrieve_none js_sort_def)

lemma find_guide_unknown:
  "map_of kb c = None \<Longrightarrow> map_of object_prototype c = None \<Longrightarrow>
   find_guide rt (JObj kb) c k = Inr (JUndefined, JUndefined)"
  by (simp add: find_guide_def)

lemma split_gt_take:
  assumes "take 3 s = '' > ''"
  shows "split_from '' > '' cur s = rev cur # split_from '' > '' [] (drop 3 s)"
proof -
  have "s = '' > '' @ drop 3 s"
    using append_take_drop_id[of 3 s] assms by simp
  then have "split_from '' > '' cur s = split_from '' > '' cur ('' > '' @ drop 3 s)"
    by simp
  then show ?thesis by (simp only: split_gt_match)
qed

lemma split_from_no_delimiter:
  "\<not> sublist '' > '' s \<Longrightarrow> split_from '' > '' cur s = [rev cur @ s]"
proof (induction s arbitrary: cur)
  case Nil
  then show ?case by (subst split_from.simps) simp
next
  case (Cons x k)
  from Cons.prems have np: "\<not> prefix '' > '' (x # k)" and ns: "\<not> sublist '' > '' k"
    using sublist_Cons_right[of "'' > ''" x k] by blast+
  have "take 3 (x # k) \<noteq> '' > ''"
  proof
    assume eq: "take 3 (x # k) = '' > ''"
    have "prefix (take 3 (x # k)) (x # k)" by (rule take_is_prefix)
    then have "prefix '' > '' (x # k)" unfolding eq .
    with np show False by blast
  qed
  then have "split_from '' > '' cur (x # k) = split_from '' > '' (x # cur) k"
    by (rule split_gt_Cons)
  with Cons.IH[OF ns, of "x # cur"] show ?case by simp
qed

lemma split_from_delimiter:
  "1 < length (split_from '' > '' cur (a @ '' > '' @ b))"
proof (induction a arbitrary: cur)
  case Nil
  have "split_from '' > '' [] b \<noteq> []" by (rule split_from_nonempty)
  then have "0 < length (split_from '' > '' [] b)" by simp
  then show ?case using split_gt_match[of cur b] by simp
next
  case (Cons x a)
  show ?case
  proof (cases "take 3 (x # a @ '' > '' @ b) = '' > ''")
    case True
    have "split_from '' > '' [] (drop 3 (x # a @ '' > '' @ b)) \<noteq> []"
      by (rule split_from_nonempty)
    then have "0 < length (split_from '' > '' [] (drop 3 (x # a @ '' > '' @ b)))" by simp
    then show ?thesis
      using split_gt_take[OF True, of cur] by simp
  next
    case False
    then have "split_from '' > '' cur (x # a @ '' > '' @ b)
        = split_from '' > '' (x # cur) (a @ '' > '' @ b)"
      by (rule split_gt_Cons)
    with Cons.IH[of "x # cur"] show ?thesis by simp
  qed
qed

lemma has_key_iff: "guideKeyOrIndex_of src = None \<longleftrightarrow> \<not> sublist '' > '' src"
proof
  assume "\<not> sublist '' > '' src"
  then have "pathParts src = [src]"
    using split_from_no_delimiter[of src "[]"] by (simp add: pathParts_def split_def)
  then show "guideKeyOrIndex_of src = None" by (simp add: guideKeyOrIndex_of_def)
next
  assume n: "guideKeyOrIndex_of src = None"
  show "\<not> sublist '' > '' src"
  proof
    assume "sublist '' > '' src"
    then obtain a b where "src = a @ '' > '' @ b" unfolding sublist_def by blast
    then have "1 < length (pathParts src)"
      using split_from_delimiter[of "[]" a b] by (simp add: pathParts_def split_def)
    with n show False by (simp add: guideKeyOrIndex_of_def)
  qed
qed

lemma no_delimiter:
  assumes "\<not> sublist '' > '' src"
  shows "category_of src = src \<and> guideKeyOrIndex_of src = None"
proof -
  have "pathParts src = [src]"
    using split_from_no_delimiter[OF assms, of "[]"] by (simp add: pathParts_def split_def)
  then show ?thesis by (simp add: category_of_def guideKeyOrIndex_of_def)
qed

lemma parseInt_undefined: "parseInt None = None"
  by code_simp

lemma undefined_not_inherited: "map_of object_prototype ''undefined'' = None"
  by (simp add: object_prototype_def)

section \<open>Queries that are rejected\<close>

lemma dropWhile_Nil_iff: "dropWhile P xs = [] \<longleftrightarrow> (\<forall>x\<in>set xs. P x)"
  by (induction xs) auto

lemma trim_empty_iff: "trim s = [] \<longleftrightarrow> (\<forall>c\<in>set s. is_ws c)"
proof
  assume "\<forall>c\<in>set s. is_ws c"
  then have d: "dropWhile is_ws s = []" using dropWhile_Nil_iff[of is_ws s] by blast
  show "trim s = []" unfolding trim_def d by simp
next
  assume t: "trim s = []"
  show "\<forall>c\<in>set s. is_ws c"
  proof (rule ccontr)
    assume "\<not> (\<forall>c\<in>set s. is_ws c)"
    then have ne: "dropWhile is_ws s \<noteq> []" using dropWhile_Nil_iff[of is_ws s] by blast
    then have "\<not> is_ws (hd (dropWhile is_ws s))" by (rule hd_dropWhile)
    moreover have "hd (dropWhile is_ws s) \<in> set (rev (dropWhile is_ws s))"
      using ne by simp
    ultimately have "\<not> (\<forall>c\<in>set (rev (dropWhile is_ws s)). is_ws c)"
      by blast
    then have "dropWhile is_ws (rev (dropWhile is_ws s)) \<noteq> []"
      using dropWhile_Nil_iff[of is_ws "rev (dropWhile is_ws s)"] by blast
    with t show False unfolding trim_def by (simp only: rev_is_Nil_conv)
  qed
qed

lemma invalid_query_iff:
  "invalid_query query \<longleftrightarrow> (\<forall>s. query = JStr s \<longrightarrow> (\<forall>c\<in>set s. is_ws c))"
  by (cases query) (auto simp: trim_empty_iff)

section \<open>Claims\<close>

text \<open>
  C1, as the code has it. The entry the map holds for a uniqueId carries the score of
  the first match of the list that resolves to it (line 114 keeps the first and skips
  the later ones). When the list is in non-increasing order of score, no match that
  resolves to the same uniqueId has a higher score. The response is made of the
  values of that map, sorted and cut to five.
\<close>

theorem first_match_wins:
  assumes "retrieve rt gd [] ms = Inr tbl" and "m' \<in> set ms" and "resolves_to rt gd u m'"
  shows "\<exists>m obj. find (resolves_to rt gd u) ms = Some m
           \<and> map_of tbl u = Some obj \<and> score_of obj = Some (score m)
           \<and> (sorted_wrt (\<lambda>a b. score b \<le> score a) ms \<longrightarrow> score m' \<le> score m)
           \<and> results rt gd ms = Inr (take 5 (js_sort compareFn (map snd tbl)))"
proof -
  from assms(2,3) have "find (resolves_to rt gd u) ms \<noteq> None"
    by (auto simp: find_None_iff)
  then obtain m where m: "find (resolves_to rt gd u) ms = Some m" by blast
  with retrieve_map_of[OF assms(1), of u]
  have obj: "map_of tbl u = Some (result_object u (guide_of rt gd m) (score m))"
    by simp
  have "score m' \<le> score m" if "sorted_wrt (\<lambda>a b. score b \<le> score a) ms"
    using find_first_sorted[OF m assms(2,3) that] by auto
  moreover have "results rt gd ms = Inr (take 5 (js_sort compareFn (map snd tbl)))"
    using assms(1) by (simp add: results_def)
  ultimately show ?thesis
    using m obj by (simp add: score_of_result_object)
qed

theorem first_match_wins_witness:
  "retrieve no_natives example_guide []
     [\<lparr>source = ''Specs > idle_speed'', score = 9/10\<rparr>, \<lparr>source = ''Engine > 2'', score = 8/10\<rparr>,
      \<lparr>source = ''Engine > 2'', score = 7/10\<rparr>]
     = Inr [(JStr ''idle_speed'', scored ''idle_speed'' ''idle'' (9/10)),
            (JStr ''Engine-2'', scored ''Engine-2'' ''plugs'' (8/10))]
   \<and> resolves_to no_natives example_guide (JStr ''Engine-2'') \<lparr>source = ''Engine > 2'', score = 7/10\<rparr>
   \<and> sorted_wrt (\<lambda>a b. score b \<le> score a)
       [\<lparr>source = ''Specs > idle_speed'', score = 9/10\<rparr>, \<lparr>source = ''Engine > 2'', score = 8/10\<rparr>,
        \<lparr>source = ''Engine > 2'', score = 7/10\<rparr>]
   \<and> (\<exists>m obj. find (resolves_to no_natives example_guide (JStr ''Engine-2''))
         [\<lparr>source = ''Specs > idle_speed'', score = 9/10\<rparr>, \<lparr>source = ''Engine > 2'', score = 8/10\<rparr>,
          \<lparr>source = ''Engine > 2'', score = 7/10\<rparr>] = Some m
        \<and> map_of [(JStr ''idle_speed'', scored ''idle_speed'' ''idle'' (9/10)),
                   (JStr ''Engine-2'', scored ''Engine-2'' ''plugs'' (8/10))] (JStr ''Engine-2'') = Some obj
        \<and> score_of obj = Some (score m)
        \<and> score \<lparr>source = ''Engine > 2'', score = 7/10\<rparr> \<le> score m)"
proof -
  let ?ms = "[\<lparr>source = ''Specs > idle_speed'', score = 9/10\<rparr>, \<lparr>source = ''Engine > 2'', score = 8/10\<rparr>,
      \<lparr>source = ''Engine > 2'', score = 7/10\<rparr>]"
  have a: "retrieve no_natives example_guide [] ?ms
     = Inr [(JStr ''idle_speed'', scored ''idle_speed'' ''idle'' (9/10)),
            (JStr ''Engine-2'', scored ''Engine-2'' ''plugs'' (8/10))]"
    by code_simp
  have b: "\<lparr>source = ''Engine > 2'', score = 7/10\<rparr> \<in> set ?ms"
    by simp
  have c: "resolves_to no_natives example_guide (JStr ''Engine-2'') \<lparr>source = ''Engine > 2'', score = 7/10\<rparr>"
    by code_simp
  have d: "sorted_wrt (\<lambda>a b. score b \<le> score a) ?ms"
    by simp
  from first_match_wins[OF a b c] a c d show ?thesis by blast
qed

text \<open>
  The claim as stated fails when a later match of the same uniqueId has the higher
  score: the result keeps the score of the first.
\<close>

theorem highest_score_counterexample:
  "resolves_to no_natives example_guide (JStr ''Engine-2'') \<lparr>source = ''Engine > 2'', score = 7/10\<rparr>
   \<and> resolves_to no_natives example_guide (JStr ''Engine-2'') \<lparr>source = ''Engine > 2'', score = 8/10\<rparr>
   \<and> results no_natives example_guide
        [\<lparr>source = ''Engine > 2'', score = 7/10\<rparr>, \<lparr>source = ''Engine > 2'', score = 8/10\<rparr>]
       = Inr [scored ''Engine-2'' ''plugs'' (7/10)]
   \<and> score_of (scored ''Engine-2'' ''plugs'' (7/10)) = Some (7/10)
   \<and> (7/10 :: rat) < 8/10"
  by code_simp

text \<open>
  C2, as the code has it. For a category that is an array, the key part goes through
  \<^verbatim>\<open>parseInt\<close>; the tag is unresolvable when that yields \<^verbatim>\<open>NaN\<close>, when the index is
  outside the bounds, or when the entry at the index is falsy, and otherwise resolves
  to that entry with uniqueId category, hyphen, index. For a category that is an
  object, the key is read as a property: an own key resolves to its entry unless the
  entry is falsy, a key that is not own resolves to what \<^verbatim>\<open>Object.prototype\<close> gives
  under that name, and any other key is unresolvable; the uniqueId is the key. A tag
  made of a category, the delimiter and a key (neither containing \<^verbatim>\<open>>\<close>) splits
  into the two; the decimal digits of a number parse to that number and contain no
  \<^verbatim>\<open>>\<close>.
\<close>

theorem resolution:
  "(map_of kb (category_of src) = Some (JArr xs) \<longrightarrow>
      resolve rt (JObj kb) src =
        Inr (case parseInt (guideKeyOrIndex_of src) of
               None \<Rightarrow> (JUndefined, JUndefined)
             | Some i \<Rightarrow>
                 if 0 \<le> i \<and> nat i < length xs \<and> truthy (xs ! nat i)
                 then (xs ! nat i, JStr (category_of src @ ''-'' @ dec (nat i)))
                 else (JUndefined, JUndefined)))
   \<and> (map_of kb (category_of src) = Some (JObj ps) \<longrightarrow>
      resolve rt (JObj kb) src =
        Inr (case map_of ps (key_string (guideKeyOrIndex_of src)) of
               Some v \<Rightarrow>
                 if truthy v then (v, key_value (guideKeyOrIndex_of src))
                 else (JUndefined, JUndefined)
             | None \<Rightarrow>
                 (case map_of object_prototype (key_string (guideKeyOrIndex_of src)) of
                    Some v \<Rightarrow> (v, key_value (guideKeyOrIndex_of src))
                  | None \<Rightarrow> (JUndefined, JUndefined))))
   \<and> (CHR ''>'' \<notin> set c \<and> CHR ''>'' \<notin> set k \<longrightarrow>
        category_of (c @ '' > '' @ k) = c \<and> guideKeyOrIndex_of (c @ '' > '' @ k) = Some k)
   \<and> parseInt (Some (dec n)) = Some (int n) \<and> CHR ''>'' \<notin> set (dec n)"
proof (intro conjI impI)
  show "parseInt (Some (dec n)) = Some (int n)" by (rule parseInt_dec)
  show "CHR ''>'' \<notin> set (dec n)" by (rule dec_no_gt)
  show "category_of (c @ '' > '' @ k) = c" "guideKeyOrIndex_of (c @ '' > '' @ k) = Some k"
    if "CHR ''>'' \<notin> set c \<and> CHR ''>'' \<notin> set k"
    using that tag_parts[of c k] by simp_all
  show "resolve rt (JObj kb) src =
        Inr (case parseInt (guideKeyOrIndex_of src) of
               None \<Rightarrow> (JUndefined, JUndefined)
             | Some i \<Rightarrow>
                 if 0 \<le> i \<and> nat i < length xs \<and> truthy (xs ! nat i)
                 then (xs ! nat i, JStr (category_of src @ ''-'' @ dec (nat i)))
                 else (JUndefined, JUndefined))"
    if "map_of kb (category_of src) = Some (JArr xs)"
    using that
    by (auto simp: resolve_def find_guide_array number_to_string_def split: option.splits)
  show "resolve rt (JObj kb) src =
        Inr (case map_of ps (key_string (guideKeyOrIndex_of src)) of
               Some v \<Rightarrow>
                 if truthy v then (v, key_value (guideKeyOrIndex_of src))
                 else (JUndefined, JUndefined)
             | None \<Rightarrow>
                 (case map_of object_prototype (key_string (guideKeyOrIndex_of src)) of
                    Some v \<Rightarrow> (v, key_value (guideKeyOrIndex_of src))
                  | None \<Rightarrow> (JUndefined, JUndefined)))"
    if "map_of kb (category_of src) = Some (JObj ps)"
    using that by (simp add: resolve_def find_guide_keyed)
qed

theorem resolution_witness:
  "map_of [(''Engine'', JArr [entry ''oil'', entry ''belt'', entry ''plugs'']),
           (''Specs'', JObj [(''idle_speed'', entry ''idle'')])] (category_of ''Engine > 2'')
     = Some (JArr [entry ''oil'', entry ''belt'', entry ''plugs''])
   \<and> resolve no_natives
        (JObj [(''Engine'', JArr [entry ''oil'', entry ''belt'', entry ''plugs'']),
               (''Specs'', JObj [(''idle_speed'', entry ''idle'')])]) ''Engine > 2''
     = Inr (entry ''plugs'', JStr ''Engine-2'')
   \<and> map_of [(''Engine'', JArr [entry ''oil'', entry ''belt'', entry ''plugs'']),
           (''Specs'', JObj [(''idle_speed'', entry ''idle'')])] (category_of ''Specs > idle_speed'')
     = Some (JObj [(''idle_speed'', entry ''idle'')])
   \<and> resolve no_natives
        (JObj [(''Engine'', JArr [entry ''oil'', entry ''belt'', entry ''plugs'']),
               (''Specs'', JObj [(''idle_speed'', entry ''idle'')])]) ''Specs > idle_speed''
     = Inr (entry ''idle'', JStr ''idle_speed'')
   \<and> CHR ''>'' \<notin> set ''Engine'' \<and> CHR ''>'' \<notin> set ''2''
   \<and> category_of (''Engine'' @ '' > '' @ ''2'') = ''Engine''
   \<and> guideKeyOrIndex_of (''Engine'' @ '' > '' @ ''2'') = Some ''2''
   \<and> parseInt (Some (dec 2)) = Some (int 2)"
proof -
  let ?kb = "[(''Engine'', JArr [entry ''oil'', entry ''belt'', entry ''plugs'']),
              (''Specs'', JObj [(''idle_speed'', entry ''idle'')])]"
  have a: "map_of ?kb (category_of ''Engine > 2'') = Some (JArr [entry ''oil'', entry ''belt'', entry ''plugs''])"
    by code_simp
  have k: "map_of ?kb (category_of ''Specs > idle_speed'') = Some (JObj [(''idle_speed'', entry ''idle'')])"
    by code_simp
  have g: "CHR ''>'' \<notin> set ''Engine'' \<and> CHR ''>'' \<notin> set ''2''"
    by simp
  have pa: "parseInt (guideKeyOrIndex_of ''Engine > 2'') = Some 2"
    and ca: "category_of ''Engine > 2'' = ''Engine''"
    and d2: "dec 2 = ''2''"
    and ks: "key_string (guideKeyOrIndex_of ''Specs > idle_speed'') = ''idle_speed''"
    and kv: "key_value (guideKeyOrIndex_of ''Specs > idle_speed'') = JStr ''idle_speed''"
    by code_simp+
  have "resolve no_natives (JObj ?kb) ''Engine > 2'' = Inr (entry ''plugs'', JStr ''Engine-2'')"
    using resolution[of ?kb "''Engine > 2''" "[entry ''oil'', entry ''belt'', entry ''plugs'']" no_natives]
      a pa ca d2
    by (simp add: entry_def)
  moreover have "resolve no_natives (JObj ?kb) ''Specs > idle_speed'' = Inr (entry ''idle'', JStr ''idle_speed'')"
    using resolution[of ?kb "''Specs > idle_speed''" _ no_natives "[(''idle_speed'', entry ''idle'')]"]
      k ks kv
    by (simp add: entry_def)
  moreover have "category_of (''Engine'' @ '' > '' @ ''2'') = ''Engine''
      \<and> guideKeyOrIndex_of (''Engine'' @ '' > '' @ ''2'') = Some ''2''"
    using resolution[of _ _ _ _ _ "''Engine''" "''2''"] g by blast
  moreover have "parseInt (Some (dec 2)) = Some (int 2)"
    using resolution by blast
  ultimately show ?thesis using a k g by simp
qed

text \<open>
  The claim as stated fails for an entry that is there but falsy: the index parses and
  is inside the bounds, and the tag is unresolvable all the same.
\<close>

theorem null_entry_counterexample:
  "map_of [(''Engine'', JArr [entry ''oil'', JNull])] (category_of ''Engine > 1'')
     = Some (JArr [entry ''oil'', JNull])
   \<and> parseInt (guideKeyOrIndex_of ''Engine > 1'') = Some 1
   \<and> nat 1 < length [entry ''oil'', JNull]
   \<and> resolve no_natives (JObj [(''Engine'', JArr [entry ''oil'', JNull])]) ''Engine > 1''
       = Inr (JUndefined, JUndefined)"
  by code_simp

text \<open>
  C3. Whatever the request, an array sent by the search endpoint has at most 5
  elements: the only array body is the one of status 200, which is
  \<^verbatim>\<open>results.slice(0, 5)\<close>.
\<close>

theorem search_at_most_five:
  "search env rt st query = (resp, calls) \<Longrightarrow> body resp = JArr rs \<Longrightarrow> length rs \<le> 5"
  by (auto simp: search_def not_ready_def bad_request_def search_failed_def
      split: option.splits if_splits jsval.splits sum.splits dest: results_length)

theorem search_at_most_five_witness:
  "search ''production'' no_natives example_server (JStr ''oil filter'') =
     (\<lparr>status = 200,
       body = JArr [scored ''idle_speed'' ''idle'' (9/10), scored ''Engine-2'' ''plugs'' (7/10),
                    scored ''Engine-0'' ''oil'' (7/10), scored ''Engine-1'' ''belt'' (5/10),
                    scored ''torque'' ''torque'' (4/10)]\<rparr>,
      [Embed ''oil filter'', Query [1]])
   \<and> length [scored ''idle_speed'' ''idle'' (9/10), scored ''Engine-2'' ''plugs'' (7/10),
              scored ''Engine-0'' ''oil'' (7/10), scored ''Engine-1'' ''belt'' (5/10),
              scored ''torque'' ''torque'' (4/10)] \<le> 5"
proof -
  have run: "search ''production'' no_natives example_server (JStr ''oil filter'') =
     (\<lparr>status = 200,
       body = JArr [scored ''idle_speed'' ''idle'' (9/10), scored ''Engine-2'' ''plugs'' (7/10),
                    scored ''Engine-0'' ''oil'' (7/10), scored ''Engine-1'' ''belt'' (5/10),
                    scored ''torque'' ''torque'' (4/10)]\<rparr>,
      [Embed ''oil filter'', Query [1]])"
    by code_simp
  from search_at_most_five[OF run] run show ?thesis by simp
qed

text \<open>
  C4. The scores of a response are non-increasing by position, and results with equal
  scores keep the order in which their uniqueIds were first seen: the keys of the map
  are in first-seen order, and for every score the results with that score are, in
  order, a prefix of the map's values with that score.
\<close>

theorem results_sorted_stable:
  assumes "results rt gd ms = Inr rs" and "retrieve rt gd [] ms = Inr tbl"
  shows "(\<exists>ss. map score_of rs = map Some ss \<and> sorted_wrt (\<lambda>x y. y \<le> x) ss)
       \<and> map fst tbl = first_seen rt gd ms
       \<and> (\<forall>s. prefix (filter (\<lambda>r. score_of r = Some s) rs)
                      (filter (\<lambda>r. score_of r = Some s) (map snd tbl)))"
proof (intro conjI allI)
  let ?f = "\<lambda>a. - the (score_of a)"
  have scored: "\<forall>v\<in>set (map snd tbl). score_of v \<noteq> None"
    using retrieve_scored[OF assms(2)] by simp
  have rs: "rs = take 5 (sort_key ?f (map snd tbl))"
    using assms scored by (simp add: results_def js_sort_sort_key)
  have "sorted (map ?f (sort_key ?f (map snd tbl)))" by (rule sorted_sort_key)
  then have "sorted_wrt (\<lambda>a b. ?f a \<le> ?f b) (sort_key ?f (map snd tbl))"
    by (simp add: sorted_map)
  then have "sorted_wrt (\<lambda>a b. ?f a \<le> ?f b) rs"
    unfolding rs by (rule sorted_wrt_take)
  then have desc: "sorted_wrt (\<lambda>x y. y \<le> x) (map (\<lambda>a. the (score_of a)) rs)"
    by (simp add: sorted_wrt_map)
  have "set rs \<subseteq> set (map snd tbl)"
    unfolding rs using set_take_subset[of 5 "sort_key ?f (map snd tbl)"] by simp
  then have "\<forall>v\<in>set rs. score_of v \<noteq> None"
    using scored by blast
  then have "map score_of rs = map Some (map (\<lambda>a. the (score_of a)) rs)"
    by (induction rs) auto
  with desc show "\<exists>ss. map score_of rs = map Some ss \<and> sorted_wrt (\<lambda>x y. y \<le> x) ss"
    by blast
  show "map fst tbl = first_seen rt gd ms"
    using retrieve_keys[OF assms(2)] by simp
  fix s
  have "filter (\<lambda>r. score_of r = Some s) (sort_key ?f (map snd tbl))
      = filter (\<lambda>r. score_of r = Some s) (map snd tbl)"
  proof -
    have "filter (\<lambda>r. ?f r = - s) (sort_key ?f (map snd tbl)) = filter (\<lambda>r. ?f r = - s) (map snd tbl)"
      by (rule sort_key_stable)
    moreover have "filter (\<lambda>r. ?f r = - s) (sort_key ?f (map snd tbl))
        = filter (\<lambda>r. score_of r = Some s) (sort_key ?f (map snd tbl))"
      using scored by (intro filter_cong) auto
    moreover have "filter (\<lambda>r. ?f r = - s) (map snd tbl) = filter (\<lambda>r. score_of r = Some s) (map snd tbl)"
      using scored by (intro filter_cong) auto
    ultimately show ?thesis by simp
  qed
  then show "prefix (filter (\<lambda>r. score_of r = Some s) rs) (filter (\<lambda>r. score_of r = Some s) (map snd tbl))"
    unfolding rs using filter_take_prefix[of "\<lambda>r. score_of r = Some s" 5 "sort_key ?f (map snd tbl)"]
    by simp
qed

theorem results_sorted_stable_witness:
  "results no_natives example_guide example_matches =
     Inr [scored ''idle_speed'' ''idle'' (9/10), scored ''Engine-2'' ''plugs'' (7/10),
          scored ''Engine-0'' ''oil'' (7/10), scored ''Engine-1'' ''belt'' (5/10),
          scored ''torque'' ''torque'' (4/10)]
   \<and> retrieve no_natives example_guide [] example_matches =
     Inr [(JStr ''Engine-2'', scored ''Engine-2'' ''plugs'' (7/10)),
          (JStr ''idle_speed'', scored ''idle_speed'' ''idle'' (9/10)),
          (JStr ''Engine-0'', scored ''Engine-0'' ''oil'' (7/10)),
          (JStr ''Engine-1'', scored ''Engine-1'' ''belt'' (5/10)),
          (JStr ''torque'', scored ''torque'' ''torque'' (4/10)),
          (JStr ''Engine-4'', scored ''Engine-4'' ''pump'' (3/10))]
   \<and> first_seen no_natives example_guide example_matches =
     [JStr ''Engine-2'', JStr ''idle_speed'', JStr ''Engine-0'', JStr ''Engine-1'',
      JStr ''torque'', JStr ''Engine-4'']"
proof -
  have r: "results no_natives example_guide example_matches =
     Inr [scored ''idle_speed'' ''idle'' (9/10), scored ''Engine-2'' ''plugs'' (7/10),
          scored ''Engine-0'' ''oil'' (7/10), scored ''Engine-1'' ''belt'' (5/10),
          scored ''torque'' ''torque'' (4/10)]"
    by code_simp
  have t: "retrieve no_natives example_guide [] example_matches =
     Inr [(JStr ''Engine-2'', scored ''Engine-2'' ''plugs'' (7/10)),
          (JStr ''idle_speed'', scored ''idle_speed'' ''idle'' (9/10)),
          (JStr ''Engine-0'', scored ''Engine-0'' ''oil'' (7/10)),
          (JStr ''Engine-1'', scored ''Engine-1'' ''belt'' (5/10)),
          (JStr ''torque'', scored ''torque'' ''torque'' (4/10)),
          (JStr ''Engine-4'', scored ''Engine-4'' ''pump'' (3/10))]"
    by code_simp
  from results_sorted_stable[OF r t] r t show ?thesis by simp
qed

text \<open>
  C5, as the code has it. A match whose lookup yields nothing truthy is dropped: the
  results are those of the list without it, and when every match is of that kind the
  result is the empty array, not an error. The lookup yields nothing, without a
  throw, for a category that is neither a key of the guide nor inherited from
  \<^verbatim>\<open>Object.prototype\<close>, for an index that does not parse or lies outside the array, and
  for a key that is neither a key of the category nor inherited. A tag has no key
  part exactly when the delimiter (space, \<^verbatim>\<open>>\<close>, space) does not occur in it; such a
  tag, whatever else it contains, is its own category and has the key \<^verbatim>\<open>undefined\<close>,
  which does not parse and is not inherited.
\<close>

theorem unresolvable_dropped:
  "(resolve rt gd (source m) = Inr (g, u) \<and> \<not> truthy g \<longrightarrow>
      results rt gd (ms1 @ m # ms2) = results rt gd (ms1 @ ms2))
   \<and> ((\<forall>x\<in>set ms. \<exists>g u. resolve rt gd (source x) = Inr (g, u) \<and> \<not> truthy g) \<longrightarrow>
      results rt gd ms = Inr [])
   \<and> (map_of kb (category_of src) = None \<and> map_of object_prototype (category_of src) = None \<longrightarrow>
      resolve rt (JObj kb) src = Inr (JUndefined, JUndefined))
   \<and> (map_of kb (category_of src) = Some (JArr xs)
      \<and> (parseInt (guideKeyOrIndex_of src) = None
         \<or> (\<exists>i. parseInt (guideKeyOrIndex_of src) = Some i \<and> (i < 0 \<or> length xs \<le> nat i))) \<longrightarrow>
      resolve rt (JObj kb) src = Inr (JUndefined, JUndefined))
   \<and> (map_of kb (category_of src) = Some (JObj ps)
      \<and> map_of ps (key_string (guideKeyOrIndex_of src)) = None
      \<and> map_of object_prototype (key_string (guideKeyOrIndex_of src)) = None \<longrightarrow>
      resolve rt (JObj kb) src = Inr (JUndefined, JUndefined))
   \<and> (\<not> sublist '' > '' src \<longrightarrow>
      category_of src = src \<and> guideKeyOrIndex_of src = None
      \<and> parseInt (guideKeyOrIndex_of src) = None
      \<and> key_string (guideKeyOrIndex_of src) = ''undefined''
      \<and> map_of object_prototype (key_string (guideKeyOrIndex_of src)) = None)
   \<and> (guideKeyOrIndex_of src = None \<longleftrightarrow> \<not> sublist '' > '' src)"
proof (intro conjI impI)
  show "guideKeyOrIndex_of src = None \<longleftrightarrow> \<not> sublist '' > '' src"
    by (rule has_key_iff)
  show "results rt gd (ms1 @ m # ms2) = results rt gd (ms1 @ ms2)"
    if "resolve rt gd (source m) = Inr (g, u) \<and> \<not> truthy g"
    using that results_skip[of rt gd m g u ms1 ms2] by simp
  show "results rt gd ms = Inr []"
    if "\<forall>x\<in>set ms. \<exists>g u. resolve rt gd (source x) = Inr (g, u) \<and> \<not> truthy g"
    using that by (rule results_none)
  show "resolve rt (JObj kb) src = Inr (JUndefined, JUndefined)"
    if "map_of kb (category_of src) = None \<and> map_of object_prototype (category_of src) = None"
    using that by (simp add: resolve_def find_guide_unknown)
  show "resolve rt (JObj kb) src = Inr (JUndefined, JUndefined)"
    if "map_of kb (category_of src) = Some (JArr xs)
      \<and> (parseInt (guideKeyOrIndex_of src) = None
         \<or> (\<exists>i. parseInt (guideKeyOrIndex_of src) = Some i \<and> (i < 0 \<or> length xs \<le> nat i)))"
    using that by (auto simp: resolve_def find_guide_array)
  show "resolve rt (JObj kb) src = Inr (JUndefined, JUndefined)"
    if "map_of kb (category_of src) = Some (JObj ps)
      \<and> map_of ps (key_string (guideKeyOrIndex_of src)) = None
      \<and> map_of object_prototype (key_string (guideKeyOrIndex_of src)) = None"
    using that by (simp add: resolve_def find_guide_keyed)
  assume nd: "\<not> sublist '' > '' src"
  from no_delimiter[OF nd]
  show "category_of src = src" and k: "guideKeyOrIndex_of src = None" by simp_all
  show "parseInt (guideKeyOrIndex_of src) = None"
    unfolding k by (rule parseInt_undefined)
  show "key_string (guideKeyOrIndex_of src) = ''undefined''"
    unfolding k by (simp add: key_string_def)
  show "map_of object_prototype (key_string (guideKeyOrIndex_of src)) = None"
    unfolding k by (simp add: key_string_def undefined_not_inherited)
qed

theorem unresolvable_dropped_witness:
  "resolve no_natives example_guide ''Nope > 1'' = Inr (JUndefined, JUndefined)
   \<and> resolve no_natives example_guide ''Engine > 9'' = Inr (JUndefined, JUndefined)
   \<and> resolve no_natives example_guide ''Engine > first'' = Inr (JUndefined, JUndefined)
   \<and> resolve no_natives example_guide ''Specs > missing'' = Inr (JUndefined, JUndefined)
   \<and> \<not> sublist '' > '' ''Engine''
   \<and> resolve no_natives example_guide ''Engine'' = Inr (JUndefined, JUndefined)
   \<and> \<not> sublist '' > '' ''Engine>1'' \<and> category_of ''Engine>1'' = ''Engine>1''
   \<and> resolve no_natives example_guide ''Engine>1'' = Inr (JUndefined, JUndefined)
   \<and> \<not> sublist '' > '' ''Engine >1'' \<and> category_of ''Engine >1'' = ''Engine >1''
   \<and> resolve no_natives example_guide ''Engine >1'' = Inr (JUndefined, JUndefined)
   \<and> results no_natives example_guide
        ([\<lparr>source = ''Engine > 0'', score = 9/10\<rparr>] @ \<lparr>source = ''Nope > 1'', score = 8/10\<rparr>
           # [\<lparr>source = ''Specs > torque'', score = 7/10\<rparr>])
     = results no_natives example_guide
        ([\<lparr>source = ''Engine > 0'', score = 9/10\<rparr>] @ [\<lparr>source = ''Specs > torque'', score = 7/10\<rparr>])
   \<and> results no_natives example_guide
        [\<lparr>source = ''Nope > 1'', score = 9/10\<rparr>, \<lparr>source = ''Engine > 9'', score = 8/10\<rparr>,
         \<lparr>source = ''Specs > missing'', score = 7/10\<rparr>, \<lparr>source = ''Engine'', score = 6/10\<rparr>,
         \<lparr>source = ''Engine>1'', score = 5/10\<rparr>]
     = Inr []"
proof -
  let ?kb = "[(''Engine'', JArr [entry ''oil'', entry ''belt'', entry ''plugs'', JNull, entry ''pump'']),
           (''Specs'', JObj [(''idle_speed'', entry ''idle''), (''torque'', entry ''torque''),
                             (''zero'', JNum 0)])]"
  let ?xs = "[entry ''oil'', entry ''belt'', entry ''plugs'', JNull, entry ''pump'']"
  let ?ps = "[(''idle_speed'', entry ''idle''), (''torque'', entry ''torque''), (''zero'', JNum 0)]"
  have g: "example_guide = JObj ?kb" by (simp add: example_guide_def)
  have u1: "map_of ?kb (category_of ''Nope > 1'') = None \<and> map_of object_prototype (category_of ''Nope > 1'') = None"
    by code_simp
  have r1: "resolve no_natives example_guide ''Nope > 1'' = Inr (JUndefined, JUndefined)"
    unfolding g using unresolvable_dropped[of no_natives _ _ _ _ _ _ _ ?kb "''Nope > 1''"] u1 by blast
  have u2: "map_of ?kb (category_of ''Engine > 9'') = Some (JArr ?xs)"
    "parseInt (guideKeyOrIndex_of ''Engine > 9'') = Some 9" "length ?xs \<le> nat 9"
    by code_simp+
  have r2: "resolve no_natives example_guide ''Engine > 9'' = Inr (JUndefined, JUndefined)"
    unfolding g using unresolvable_dropped[of no_natives _ _ _ _ _ _ _ ?kb "''Engine > 9''" ?xs] u2 by blast
  have u3: "map_of ?kb (category_of ''Engine > first'') = Some (JArr ?xs)"
    "parseInt (guideKeyOrIndex_of ''Engine > first'') = None"
    by code_simp+
  have r3: "resolve no_natives example_guide ''Engine > first'' = Inr (JUndefined, JUndefined)"
    unfolding g using unresolvable_dropped[of no_natives _ _ _ _ _ _ _ ?kb "''Engine > first''" ?xs] u3 by blast
  have u4: "map_of ?kb (category_of ''Specs > missing'') = Some (JObj ?ps)"
    "map_of ?ps (key_string (guideKeyOrIndex_of ''Specs > missing'')) = None"
    "map_of object_prototype (key_string (guideKeyOrIndex_of ''Specs > missing'')) = None"
    by code_simp+
  have r4: "resolve no_natives example_guide ''Specs > missing'' = Inr (JUndefined, JUndefined)"
    unfolding g using unresolvable_dropped[of no_natives _ _ _ _ _ _ _ ?kb "''Specs > missing''" _ ?ps] u4 by blast
  have nd: "\<not> sublist '' > '' ''Engine''" by code_simp
  have u5: "category_of ''Engine'' = ''Engine'' \<and> parseInt (guideKeyOrIndex_of ''Engine'') = None"
    using unresolvable_dropped[of _ _ _ _ _ _ _ _ _ "''Engine''"] nd by blast
  have u5': "map_of ?kb ''Engine'' = Some (JArr ?xs)" by simp
  have r5: "resolve no_natives example_guide ''Engine'' = Inr (JUndefined, JUndefined)"
    unfolding g using unresolvable_dropped[of no_natives _ _ _ _ _ _ _ ?kb "''Engine''" ?xs] u5 u5'
    by simp
  have nd6: "\<not> sublist '' > '' ''Engine>1''" by code_simp
  have c6: "category_of ''Engine>1'' = ''Engine>1''"
    using unresolvable_dropped[of _ _ _ _ _ _ _ _ _ "''Engine>1''"] nd6 by blast
  have u6: "map_of ?kb ''Engine>1'' = None \<and> map_of object_prototype ''Engine>1'' = None"
    by code_simp
  have r6: "resolve no_natives example_guide ''Engine>1'' = Inr (JUndefined, JUndefined)"
    unfolding g using unresolvable_dropped[of no_natives _ _ _ _ _ _ _ ?kb "''Engine>1''"] u6 c6
    by simp
  have nd7: "\<not> sublist '' > '' ''Engine >1''" by code_simp
  have c7: "category_of ''Engine >1'' = ''Engine >1''"
    using unresolvable_dropped[of _ _ _ _ _ _ _ _ _ "''Engine >1''"] nd7 by blast
  have u7: "map_of ?kb ''Engine >1'' = None \<and> map_of object_prototype ''Engine >1'' = None"
    by code_simp
  have r7: "resolve no_natives example_guide ''Engine >1'' = Inr (JUndefined, JUndefined)"
    unfolding g using unresolvable_dropped[of no_natives _ _ _ _ _ _ _ ?kb "''Engine >1''"] u7 c7
    by simp
  have d: "results no_natives example_guide
        ([\<lparr>source = ''Engine > 0'', score = 9/10\<rparr>] @ \<lparr>source = ''Nope > 1'', score = 8/10\<rparr>
           # [\<lparr>source = ''Specs > torque'', score = 7/10\<rparr>])
     = results no_natives example_guide
        ([\<lparr>source = ''Engine > 0'', score = 9/10\<rparr>] @ [\<lparr>source = ''Specs > torque'', score = 7/10\<rparr>])"
    using unresolvable_dropped[of no_natives example_guide "\<lparr>source = ''Nope > 1'', score = 8/10\<rparr>"
        JUndefined JUndefined "[\<lparr>source = ''Engine > 0'', score = 9/10\<rparr>]"
        "[\<lparr>source = ''Specs > torque'', score = 7/10\<rparr>]"] r1
    by simp
  have e: "results no_natives example_guide
        [\<lparr>source = ''Nope > 1'', score = 9/10\<rparr>, \<lparr>source = ''Engine > 9'', score = 8/10\<rparr>,
         \<lparr>source = ''Specs > missing'', score = 7/10\<rparr>, \<lparr>source = ''Engine'', score = 6/10\<rparr>,
         \<lparr>source = ''Engine>1'', score = 5/10\<rparr>]
     = Inr []"
    using unresolvable_dropped[of no_natives example_guide _ _ _ _ _
        "[\<lparr>source = ''Nope > 1'', score = 9/10\<rparr>, \<lparr>source = ''Engine > 9'', score = 8/10\<rparr>,
         \<lparr>source = ''Specs > missing'', score = 7/10\<rparr>, \<lparr>source = ''Engine'', score = 6/10\<rparr>,
         \<lparr>source = ''Engine>1'', score = 5/10\<rparr>]"]
      r1 r2 r4 r5 r6
    by simp
  from r1 r2 r3 r4 nd r5 nd6 c6 r6 nd7 c7 r7 d e show ?thesis by blast
qed

text \<open>
  The claim as stated fails for a missing key that names an inherited property: the
  match is not dropped, it becomes a result.
\<close>

theorem inherited_key_not_dropped:
  "map_of [(''idle_speed'', entry ''idle'')] ''constructor'' = None
   \<and> results no_natives (JObj [(''Specs'', JObj [(''idle_speed'', entry ''idle'')])])
        [\<lparr>source = ''Specs > constructor'', score = 1/2\<rparr>]
     = Inr [JObj [(''id'', JStr ''constructor''), (''score'', JNum (1/2))]]"
  by code_simp

text \<open>
  C6, as the code has it. A query is invalid exactly when it is not a string (absent
  included) or a string of white space only. An invalid query makes no call to the
  embedding pipeline or to the index; the response is 400 with the error
  \<^verbatim>\<open>Valid query string is required\<close> when the three globals are set, and the 503 of
  the readiness test otherwise.
\<close>

theorem invalid_query_rejected:
  "(invalid_query query \<longleftrightarrow> (\<forall>s. query = JStr s \<longrightarrow> (\<forall>c\<in>set s. is_ws c)))
   \<and> (invalid_query query \<longrightarrow>
        search env rt st query =
          (if pinecone st \<noteq> None \<and> pipe st \<noteq> None \<and> truthy (guideData st)
           then bad_request else not_ready st, []))
   \<and> status bad_request = 400
   \<and> body bad_request = JObj [(''error'', JStr ''Valid query string is required'')]"
proof (intro conjI impI)
  show "invalid_query query \<longleftrightarrow> (\<forall>s. query = JStr s \<longrightarrow> (\<forall>c\<in>set s. is_ws c))"
    by (rule invalid_query_iff)
  show "search env rt st query =
          (if pinecone st \<noteq> None \<and> pipe st \<noteq> None \<and> truthy (guideData st)
           then bad_request else not_ready st, [])"
    if "invalid_query query"
    using that by (auto simp: search_def split: option.splits)
qed (simp_all add: bad_request_def)

theorem invalid_query_rejected_witness:
  "invalid_query (JStr ''  '') \<and> invalid_query JUndefined \<and> invalid_query (JNum 5)
   \<and> search ''production'' no_natives example_server (JStr ''  '') = (bad_request, [])
   \<and> search ''production'' no_natives example_server JUndefined = (bad_request, [])
   \<and> search ''production'' no_natives example_server (JNum 5) = (bad_request, [])"
proof -
  have ready: "pinecone example_server \<noteq> None \<and> pipe example_server \<noteq> None
      \<and> truthy (guideData example_server)"
    by (simp add: example_server_def example_guide_def)
  have ws: "\<forall>c\<in>set ''  ''. is_ws c" by (simp add: is_ws_def)
  have a: "invalid_query (JStr ''  '')"
    using invalid_query_rejected[of "JStr ''  ''"] ws by blast
  have b: "invalid_query JUndefined"
    using invalid_query_rejected[of JUndefined] by blast
  have c: "invalid_query (JNum 5)"
    using invalid_query_rejected[of "JNum 5"] by blast
  have "search ''production'' no_natives example_server (JStr ''  '') = (bad_request, [])"
    using invalid_query_rejected[of "JStr ''  ''" "''production''" no_natives example_server] a ready
    by simp
  moreover have "search ''production'' no_natives example_server JUndefined = (bad_request, [])"
    using invalid_query_rejected[of JUndefined "''production''" no_natives example_server] b ready
    by simp
  moreover have "search ''production'' no_natives example_server (JNum 5) = (bad_request, [])"
    using invalid_query_rejected[of "JNum 5" "''production''" no_natives example_server] c ready
    by simp
  ultimately show ?thesis using a b c by simp
qed

text \<open>
  The claim as stated fails before the initialization has completed: the readiness
  test of line 62 comes first, and the answer to an empty query is 503.
\<close>

theorem not_ready_counterexample:
  "invalid_query (JStr [])
   \<and> search ''production'' no_natives initial_server (JStr []) = (not_ready initial_server, [])
   \<and> status (not_ready initial_server) = 503"
  by code_simp

text \<open>
  C7. The credential test of line 32 compares the variable with the placeholder
  \<^verbatim>\<open>YOUR_API_KEY\<close>; a variable that is not set passes it. With a valid data file and
  \<^verbatim>\<open>NODE_ENV\<close> production, whatever the index client library does with the missing
  key, the process keeps running with the guide loaded and the data endpoint answers
  200. With a library that rejects the missing key the failure comes after the guide
  is loaded; with the placeholder it comes before. A data file that is missing or
  is not JSON leaves the globals as they were in production and exits with code 1
  when \<^verbatim>\<open>NODE_ENV\<close> is not set.
\<close>

theorem unset_credential_not_detected:
  "(case initialize no_natives lib (example_environment None (Some ''production'')) initial_server of
      Running st \<Rightarrow> guideData st = example_guide \<and> status (data_endpoint st) = 200
    | Exited n \<Rightarrow> False)
   \<and> initialize no_natives strict_library (example_environment None (Some ''production''))
        initial_server
      = Running \<lparr>pinecone = None, pipe = None, guideData = example_guide\<rparr>
   \<and> initialize no_natives strict_library
        (example_environment (Some ''YOUR_API_KEY'') (Some ''production'')) initial_server
      = Running initial_server
   \<and> status (data_endpoint initial_server) = 503
   \<and> initialize rt lib \<lparr>PINECONE_API_KEY = key, NODE_ENV = Some ''production'', data_json = NoFile\<rparr> st
      = Running st
   \<and> initialize rt lib \<lparr>PINECONE_API_KEY = key, NODE_ENV = Some ''production'', data_json = BadJson\<rparr> st
      = Running st
   \<and> initialize rt lib \<lparr>PINECONE_API_KEY = key, NODE_ENV = None, data_json = NoFile\<rparr> st
      = Exited 1
   \<and> initialize rt lib \<lparr>PINECONE_API_KEY = key, NODE_ENV = None, data_json = BadJson\<rparr> st
      = Exited 1"
proof (intro conjI)
  have t: "truthy example_guide" by (simp add: example_guide_def)
  have g: "get no_natives (JObj [(''bmw_z3_guide'', example_guide)]) ''bmw_z3_guide'' = Inr example_guide"
    by simp
  have u: "example_guide \<noteq> JUndefined" "example_guide \<noteq> JNull"
    by (simp_all add: example_guide_def)
  show "case initialize no_natives lib (example_environment None (Some ''production'')) initial_server of
      Running st \<Rightarrow> guideData st = example_guide \<and> status (data_endpoint st) = 200
    | Exited n \<Rightarrow> False"
    using t u
    by (simp add: initialize_def example_environment_def init_failed_def node_env_def
        data_endpoint_def g split: sum.splits)
  show "initialize no_natives strict_library (example_environment None (Some ''production''))
        initial_server
      = Running \<lparr>pinecone = None, pipe = None, guideData = example_guide\<rparr>"
    using u
    by (simp add: initialize_def example_environment_def init_failed_def node_env_def
        strict_library_def initial_server_def g)
  show "initialize no_natives strict_library
        (example_environment (Some ''YOUR_API_KEY'') (Some ''production'')) initial_server
      = Running initial_server"
    by (simp add: initialize_def example_environment_def init_failed_def node_env_def)
  show "status (data_endpoint initial_server) = 503"
    by (simp add: data_endpoint_def initial_server_def)
qed (simp_all add: initialize_def init_failed_def node_env_def)

text \<open>
  C8, as the code has it. Every object of a response is built from the first match
  that resolves to its uniqueId: its \<^verbatim>\<open>score\<close> is that match's score, every other
  field of the resolved entry is there with the entry's value, and \<^verbatim>\<open>id\<close> is the
  entry's own \<^verbatim>\<open>id\<close> when it has one and the uniqueId otherwise. It has no other
  field.
\<close>

theorem result_fields:
  assumes "results rt gd ms = Inr rs" and "r \<in> set rs"
  shows "\<exists>u m ps. find (resolves_to rt gd u) ms = Some m \<and> m \<in> set ms \<and> resolves_to rt gd u m
           \<and> r = JObj ps
           \<and> (\<forall>k. map_of ps k =
                 (if k = ''score'' then Some (JNum (score m))
                  else case map_of (own_enumerable (guide_of rt gd m)) k of
                         Some v \<Rightarrow> Some v
                       | None \<Rightarrow> if k = ''id'' then Some u else None))"
proof -
  from assms(1) obtain tbl where tbl: "retrieve rt gd [] ms = Inr tbl"
    and rs: "rs = take 5 (js_sort compareFn (map snd tbl))"
    by (auto simp: results_def split: sum.splits)
  from assms(2) have "r \<in> set (js_sort compareFn (map snd tbl))"
    unfolding rs by (rule in_set_takeD)
  then obtain u where ur: "(u, r) \<in> set tbl"
    by (auto simp: set_js_sort)
  have "distinct (map fst tbl)"
    using retrieve_distinct[OF tbl] by simp
  with ur have "map_of tbl u = Some r" by simp
  with retrieve_map_of[OF tbl, of u]
  obtain m where m: "find (resolves_to rt gd u) ms = Some m"
    and r: "r = result_object u (guide_of rt gd m) (score m)"
    by (auto split: option.splits)
  obtain ps where ps: "result_object u (guide_of rt gd m) (score m) = JObj ps"
    by (simp add: result_object_def)
  from m have "m \<in> set ms" "resolves_to rt gd u m"
    by (auto simp: find_Some_iff)
  with m r ps result_object_fields[OF ps] show ?thesis
    by blast
qed

theorem result_fields_witness:
  "results no_natives custom_guide [\<lparr>source = ''Engine > 0'', score = 1/2\<rparr>]
     = Inr [JObj [(''id'', JStr ''custom''), (''title'', JStr ''oil''), (''score'', JNum (1/2))]]
   \<and> (\<exists>u m ps. find (resolves_to no_natives custom_guide u) [\<lparr>source = ''Engine > 0'', score = 1/2\<rparr>] = Some m
         \<and> m \<in> set [\<lparr>source = ''Engine > 0'', score = 1/2\<rparr>]
         \<and> resolves_to no_natives custom_guide u m
         \<and> JObj [(''id'', JStr ''custom''), (''title'', JStr ''oil''), (''score'', JNum (1/2))] = JObj ps
         \<and> (\<forall>k. map_of ps k =
                 (if k = ''score'' then Some (JNum (score m))
                  else case map_of (own_enumerable (guide_of no_natives custom_guide m)) k of
                         Some v \<Rightarrow> Some v
                       | None \<Rightarrow> if k = ''id'' then Some u else None)))"
proof -
  have a: "results no_natives custom_guide [\<lparr>source = ''Engine > 0'', score = 1/2\<rparr>]
     = Inr [JObj [(''id'', JStr ''custom''), (''title'', JStr ''oil''), (''score'', JNum (1/2))]]"
    by code_simp
  have b: "JObj [(''id'', JStr ''custom''), (''title'', JStr ''oil''), (''score'', JNum (1/2))]
     \<in> set [JObj [(''id'', JStr ''custom''), (''title'', JStr ''oil''), (''score'', JNum (1/2))]]"
    by simp
  from result_fields[OF a b] a show ?thesis by blast
qed

text \<open>
  The claim as stated fails for an entry that has an \<^verbatim>\<open>id\<close> field: the spread writes
  it over the uniqueId.
\<close>

theorem id_field_counterexample:
  "resolve no_natives custom_guide ''Engine > 0''
     = Inr (JObj [(''id'', JStr ''custom''), (''title'', JStr ''oil''), (''score'', JNum 99)],
            JStr ''Engine-0'')
   \<and> results no_natives custom_guide [\<lparr>source = ''Engine > 0'', score = 1/2\<rparr>]
     = Inr [JObj [(''id'', JStr ''custom''), (''title'', JStr ''oil''), (''score'', JNum (1/2))]]
   \<and> JStr ''custom'' \<noteq> JStr ''Engine-0''"
  by code_simp

text \<open>
  C9. In a keyed category the key is read with ordinary property access: a key that
  is not a key of the category but names a property inherited from
  \<^verbatim>\<open>Object.prototype\<close> (such as \<^verbatim>\<open>constructor\<close>) resolves, to the inherited value, with
  the key as uniqueId.
\<close>

theorem inherited_key_resolves:
  assumes "map_of kb (category_of src) = Some (JObj ps)"
    and "guideKeyOrIndex_of src = Some k"
    and "map_of ps k = None"
    and "map_of object_prototype k = Some v"
  shows "resolve rt (JObj kb) src = Inr (v, JStr k) \<and> truthy v"
  using assms
  by (simp add: resolve_def find_guide_keyed key_string_def key_value_def inherited_truthy)

theorem inherited_key_resolves_witness:
  "map_of [(''Specs'', JObj [(''idle_speed'', entry ''idle'')])] (category_of ''Specs > constructor'')
     = Some (JObj [(''idle_speed'', entry ''idle'')])
   \<and> guideKeyOrIndex_of ''Specs > constructor'' = Some ''constructor''
   \<and> map_of [(''idle_speed'', entry ''idle'')] ''constructor'' = None
   \<and> map_of object_prototype ''constructor'' = Some (JNative ''Object'')
   \<and> resolve no_natives (JObj [(''Specs'', JObj [(''idle_speed'', entry ''idle'')])])
        ''Specs > constructor'' = Inr (JNative ''Object'', JStr ''constructor'')
   \<and> truthy (JNative ''Object'')"
proof -
  have a: "map_of [(''Specs'', JObj [(''idle_speed'', entry ''idle'')])] (category_of ''Specs > constructor'')
     = Some (JObj [(''idle_speed'', entry ''idle'')])"
    by code_simp
  have b: "guideKeyOrIndex_of ''Specs > constructor'' = Some ''constructor''"
    by code_simp
  have c: "map_of [(''idle_speed'', entry ''idle'')] ''constructor'' = None"
    by simp
  have d: "map_of object_prototype ''constructor'' = Some (JNative ''Object'')"
    by (simp add: object_prototype_def)
  from inherited_key_resolves[OF a b c d, of no_natives] a b c d show ?thesis by simp
qed

text \<open>
  C10. An entry that is present at a valid index or key but falsy (\<^verbatim>\<open>null\<close>,
  \<^verbatim>\<open>false\<close>, \<^verbatim>\<open>0\<close>, the empty string) is unresolvable, with the same outcome as an
  index out of bounds or an absent key, and the match is dropped without a trace in
  the results.
\<close>

theorem falsy_entry_dropped:
  "(map_of kb (category_of src) = Some (JArr xs) \<and> parseInt (guideKeyOrIndex_of src) = Some i
      \<and> 0 \<le> i \<and> nat i < length xs \<and> \<not> truthy (xs ! nat i)
     \<longrightarrow> resolve rt (JObj kb) src = Inr (JUndefined, JUndefined))
   \<and> (map_of kb (category_of src) = Some (JArr xs) \<and> parseInt (guideKeyOrIndex_of src) = Some i
      \<and> (i < 0 \<or> length xs \<le> nat i)
     \<longrightarrow> resolve rt (JObj kb) src = Inr (JUndefined, JUndefined))
   \<and> (map_of kb (category_of src) = Some (JObj ps)
      \<and> map_of ps (key_string (guideKeyOrIndex_of src)) = Some v \<and> \<not> truthy v
     \<longrightarrow> resolve rt (JObj kb) src = Inr (JUndefined, JUndefined))
   \<and> (map_of kb (category_of src) = Some (JObj ps)
      \<and> map_of ps (key_string (guideKeyOrIndex_of src)) = None
      \<and> map_of object_prototype (key_string (guideKeyOrIndex_of src)) = None
     \<longrightarrow> resolve rt (JObj kb) src = Inr (JUndefined, JUndefined))
   \<and> (resolve rt gd (source m) = Inr (JUndefined, JUndefined)
     \<longrightarrow> results rt gd (ms1 @ m # ms2) = results rt gd (ms1 @ ms2))
   \<and> (\<not> truthy w \<longleftrightarrow> w \<in> {JUndefined, JNull, JBool False, JNum 0, JStr []})"
proof (intro conjI impI)
  show "\<not> truthy w \<longleftrightarrow> w \<in> {JUndefined, JNull, JBool False, JNum 0, JStr []}"
    by (rule falsy_iff)
  show "results rt gd (ms1 @ m # ms2) = results rt gd (ms1 @ ms2)"
    if "resolve rt gd (source m) = Inr (JUndefined, JUndefined)"
    using that by (rule results_skip) simp
qed (auto simp: resolve_def find_guide_array find_guide_keyed)

theorem falsy_entry_dropped_witness:
  "map_of [(''Engine'', JArr [entry ''oil'', JNull])] (category_of ''Engine > 1'')
     = Some (JArr [entry ''oil'', JNull])
   \<and> parseInt (guideKeyOrIndex_of ''Engine > 1'') = Some 1
   \<and> \<not> truthy ([entry ''oil'', JNull] ! nat 1)
   \<and> resolve no_natives (JObj [(''Engine'', JArr [entry ''oil'', JNull])]) ''Engine > 1''
       = Inr (JUndefined, JUndefined)
   \<and> parseInt (guideKeyOrIndex_of ''Engine > 7'') = Some 7
   \<and> resolve no_natives (JObj [(''Engine'', JArr [entry ''oil'', JNull])]) ''Engine > 7''
       = Inr (JUndefined, JUndefined)
   \<and> results no_natives (JObj [(''Engine'', JArr [entry ''oil'', JNull])])
        ([\<lparr>source = ''Engine > 0'', score = 1/2\<rparr>] @ \<lparr>source = ''Engine > 1'', score = 9/10\<rparr> # [])
       = results no_natives (JObj [(''Engine'', JArr [entry ''oil'', JNull])])
        ([\<lparr>source = ''Engine > 0'', score = 1/2\<rparr>] @ [])"
proof -
  let ?kb = "[(''Engine'', JArr [entry ''oil'', JNull])]"
  have a: "map_of ?kb (category_of ''Engine > 1'') = Some (JArr [entry ''oil'', JNull])"
    by code_simp
  have b: "parseInt (guideKeyOrIndex_of ''Engine > 1'') = Some 1"
    by code_simp
  have c: "\<not> truthy ([entry ''oil'', JNull] ! nat 1)"
    by code_simp
  have a7: "map_of ?kb (category_of ''Engine > 7'') = Some (JArr [entry ''oil'', JNull])"
    by code_simp
  have b7: "parseInt (guideKeyOrIndex_of ''Engine > 7'') = Some 7"
    by code_simp
  have r1: "resolve no_natives (JObj ?kb) ''Engine > 1'' = Inr (JUndefined, JUndefined)"
    using falsy_entry_dropped[of ?kb "''Engine > 1''" "[entry ''oil'', JNull]" 1 no_natives] a b c
    by simp
  have r7: "resolve no_natives (JObj ?kb) ''Engine > 7'' = Inr (JUndefined, JUndefined)"
    using falsy_entry_dropped[of ?kb "''Engine > 7''" "[entry ''oil'', JNull]" 7 no_natives] a7 b7
    by simp
  have "results no_natives (JObj ?kb)
        ([\<lparr>source = ''Engine > 0'', score = 1/2\<rparr>] @ \<lparr>source = ''Engine > 1'', score = 9/10\<rparr> # [])
       = results no_natives (JObj ?kb) ([\<lparr>source = ''Engine > 0'', score = 1/2\<rparr>] @ [])"
    using falsy_entry_dropped[of _ _ _ _ no_natives _ _ "JObj ?kb"
        "\<lparr>source = ''Engine > 1'', score = 9/10\<rparr>"
        "[\<lparr>source = ''Engine > 0'', score = 1/2\<rparr>]" "[]"] r1
    by simp
  with a b c r1 b7 r7 show ?thesis by simp
qed

end
